theory Spec2Isabelle
  imports Main "HOL-Library.Word"
begin

section \<open>Data model of ServerSocket.cpp\<close>

text \<open>
  The class \<^verbatim>\<open>ServerSocket\<close> keeps six members. They are modelled as a record with the
  members' names (without the trailing underscore). \<^verbatim>\<open>int\<close> and \<^verbatim>\<open>int32_t\<close> members are
  \<open>int\<close>: the only arithmetic the file does on them is the subtraction
  \<^verbatim>\<open>timeoutMillis - timeElapsed\<close>, which is modelled in 32 bits (\<open>pollTimeout\<close> below);
  everything else is assignment and comparison.
  Pointers (the abort checker, buffers, socket addresses) are opaque addresses.
  The linked list that \<^verbatim>\<open>getaddrinfo\<close> returns through \<^verbatim>\<open>ai_next\<close> is a HOL list, so an
  \<open>addrinfo\<close> record carries the remaining members only.
\<close>

datatype ErrorCode = OK | CONN_ERROR | CONN_ERROR_RETRYABLE

record addrinfo =
  ai_flags :: int
  ai_family :: int
  ai_socktype :: int
  ai_protocol :: int
  ai_addrlen :: nat
  ai_addr :: nat

record ServerSocket =
  port :: int
  backlog :: int
  listeningFd :: int
  fd :: int
  sa :: addrinfo
  abortChecker :: nat

text \<open>Constants of the system headers (their Linux values; no claim depends on them).\<close>

definition AF_INET :: int where "AF_INET = 2"
definition AF_INET6 :: int where "AF_INET6 = 10"
definition SOCK_STREAM :: int where "SOCK_STREAM = 1"
definition AI_PASSIVE :: int where "AI_PASSIVE = 1"
definition EINTR :: int where "EINTR = 4"

section \<open>The operating system and the collaborators\<close>

text \<open>
  Every system call and every call into \<^verbatim>\<open>SocketUtils\<close> is a field of a record \<open>'w kernel\<close>
  over an arbitrary type \<open>'w\<close> of states of the world: a call reads the world and returns
  its result with the next world, so the same call may answer differently each time.
  \<open>k_errno\<close> reads the thread's \<^verbatim>\<open>errno\<close>; \<open>k_durationMillis\<close> is the helper
  \<^verbatim>\<open>durationMillis\<close> of the headers, applied to the difference of two clock readings.
  The theorems below hold for every kernel.
\<close>

record 'w kernel =
  k_getaddrinfo :: "'w \<Rightarrow> int \<Rightarrow> addrinfo \<Rightarrow> (int \<times> addrinfo list) \<times> 'w"
  k_socket :: "'w \<Rightarrow> int \<Rightarrow> int \<Rightarrow> int \<Rightarrow> int \<times> 'w"
  k_bind :: "'w \<Rightarrow> int \<Rightarrow> addrinfo \<Rightarrow> int \<times> 'w"
  k_getsockname :: "'w \<Rightarrow> int \<Rightarrow> (int \<times> 16 word) \<times> 'w"
  k_listen :: "'w \<Rightarrow> int \<Rightarrow> int \<Rightarrow> int \<times> 'w"
  k_close :: "'w \<Rightarrow> int \<Rightarrow> int \<times> 'w"
  k_now :: "'w \<Rightarrow> int \<times> 'w"
  k_durationMillis :: "int \<Rightarrow> int"
  k_poll :: "'w \<Rightarrow> int \<Rightarrow> int \<Rightarrow> int \<times> 'w"
  k_errno :: "'w \<Rightarrow> int"
  k_accept :: "'w \<Rightarrow> int \<Rightarrow> int \<times> 'w"
  k_setReadTimeout :: "'w \<Rightarrow> int \<Rightarrow> 'w"
  k_setWriteTimeout :: "'w \<Rightarrow> int \<Rightarrow> 'w"
  k_readWithAbortCheck :: "'w \<Rightarrow> int \<Rightarrow> nat \<Rightarrow> int \<Rightarrow> nat \<Rightarrow> bool \<Rightarrow> int \<times> 'w"
  k_writeWithAbortCheck :: "'w \<Rightarrow> int \<Rightarrow> nat \<Rightarrow> int \<Rightarrow> nat \<Rightarrow> bool \<Rightarrow> int \<times> 'w"

text \<open>
  What the process has done so far: the calls it made, in order, with their arguments, and
  the lines it logged at \<^verbatim>\<open>WARNING\<close> or \<^verbatim>\<open>ERROR\<close> (\<^verbatim>\<open>VLOG\<close> lines are left out).
\<close>

datatype event =
    GetAddrInfo int addrinfo
  | Socket int int int
  | Bind int addrinfo
  | GetSockName int
  | FreeAddrInfo
  | Listen int int
  | Close int
  | Now
  | Poll int int
  | Accept int
  | SetReadTimeout int
  | SetWriteTimeout int
  | ReadWithAbortCheck int nat int nat bool
  | WriteWithAbortCheck int nat int nat bool

datatype severity = WARNING | ERROR

record 'w sys =
  world :: 'w
  trace :: "event list"
  logged :: "(severity \<times> string) list"

definition LOG :: "severity \<Rightarrow> string \<Rightarrow> 'w sys \<Rightarrow> 'w sys" where
  "LOG sev msg y = y\<lparr>logged := logged y @ [(sev, msg)]\<rparr>"

definition sys_getaddrinfo ::
  "'w kernel \<Rightarrow> int \<Rightarrow> addrinfo \<Rightarrow> 'w sys \<Rightarrow> (int \<times> addrinfo list) \<times> 'w sys" where
  "sys_getaddrinfo K service hints y =
     (case k_getaddrinfo K (world y) service hints of
        (r, w) \<Rightarrow> (r, y\<lparr>world := w, trace := trace y @ [GetAddrInfo service hints]\<rparr>))"

definition sys_socket :: "'w kernel \<Rightarrow> int \<Rightarrow> int \<Rightarrow> int \<Rightarrow> 'w sys \<Rightarrow> int \<times> 'w sys" where
  "sys_socket K fam ty proto y =
     (case k_socket K (world y) fam ty proto of
        (r, w) \<Rightarrow> (r, y\<lparr>world := w, trace := trace y @ [Socket fam ty proto]\<rparr>))"

definition sys_bind :: "'w kernel \<Rightarrow> int \<Rightarrow> addrinfo \<Rightarrow> 'w sys \<Rightarrow> int \<times> 'w sys" where
  "sys_bind K d info y =
     (case k_bind K (world y) d info of
        (r, w) \<Rightarrow> (r, y\<lparr>world := w, trace := trace y @ [Bind d info]\<rparr>))"

definition sys_getsockname :: "'w kernel \<Rightarrow> int \<Rightarrow> 'w sys \<Rightarrow> (int \<times> 16 word) \<times> 'w sys" where
  "sys_getsockname K d y =
     (case k_getsockname K (world y) d of
        (r, w) \<Rightarrow> (r, y\<lparr>world := w, trace := trace y @ [GetSockName d]\<rparr>))"

definition sys_freeaddrinfo :: "'w sys \<Rightarrow> 'w sys" where
  "sys_freeaddrinfo y = y\<lparr>trace := trace y @ [FreeAddrInfo]\<rparr>"

definition sys_listen :: "'w kernel \<Rightarrow> int \<Rightarrow> int \<Rightarrow> 'w sys \<Rightarrow> int \<times> 'w sys" where
  "sys_listen K d n y =
     (case k_listen K (world y) d n of
        (r, w) \<Rightarrow> (r, y\<lparr>world := w, trace := trace y @ [Listen d n]\<rparr>))"

definition sys_close :: "'w kernel \<Rightarrow> int \<Rightarrow> 'w sys \<Rightarrow> int \<times> 'w sys" where
  "sys_close K d y =
     (case k_close K (world y) d of
        (r, w) \<Rightarrow> (r, y\<lparr>world := w, trace := trace y @ [Close d]\<rparr>))"

definition sys_now :: "'w kernel \<Rightarrow> 'w sys \<Rightarrow> int \<times> 'w sys" where
  "sys_now K y =
     (case k_now K (world y) of
        (r, w) \<Rightarrow> (r, y\<lparr>world := w, trace := trace y @ [Now]\<rparr>))"

definition sys_poll :: "'w kernel \<Rightarrow> int \<Rightarrow> int \<Rightarrow> 'w sys \<Rightarrow> int \<times> 'w sys" where
  "sys_poll K d t y =
     (case k_poll K (world y) d t of
        (r, w) \<Rightarrow> (r, y\<lparr>world := w, trace := trace y @ [Poll d t]\<rparr>))"

definition sys_errno :: "'w kernel \<Rightarrow> 'w sys \<Rightarrow> int" where
  "sys_errno K y = k_errno K (world y)"

definition sys_accept :: "'w kernel \<Rightarrow> int \<Rightarrow> 'w sys \<Rightarrow> int \<times> 'w sys" where
  "sys_accept K d y =
     (case k_accept K (world y) d of
        (r, w) \<Rightarrow> (r, y\<lparr>world := w, trace := trace y @ [Accept d]\<rparr>))"

definition setReadTimeout :: "'w kernel \<Rightarrow> int \<Rightarrow> 'w sys \<Rightarrow> 'w sys" where
  "setReadTimeout K d y =
     y\<lparr>world := k_setReadTimeout K (world y) d, trace := trace y @ [SetReadTimeout d]\<rparr>"

definition setWriteTimeout :: "'w kernel \<Rightarrow> int \<Rightarrow> 'w sys \<Rightarrow> 'w sys" where
  "setWriteTimeout K d y =
     y\<lparr>world := k_setWriteTimeout K (world y) d, trace := trace y @ [SetWriteTimeout d]\<rparr>"

definition readWithAbortCheck ::
  "'w kernel \<Rightarrow> int \<Rightarrow> nat \<Rightarrow> int \<Rightarrow> nat \<Rightarrow> bool \<Rightarrow> 'w sys \<Rightarrow> int \<times> 'w sys" where
  "readWithAbortCheck K d buf nbyte checker tryFull y =
     (case k_readWithAbortCheck K (world y) d buf nbyte checker tryFull of
        (r, w) \<Rightarrow>
          (r, y\<lparr>world := w,
                trace := trace y @ [ReadWithAbortCheck d buf nbyte checker tryFull]\<rparr>))"

definition writeWithAbortCheck ::
  "'w kernel \<Rightarrow> int \<Rightarrow> nat \<Rightarrow> int \<Rightarrow> nat \<Rightarrow> bool \<Rightarrow> 'w sys \<Rightarrow> int \<times> 'w sys" where
  "writeWithAbortCheck K d buf nbyte checker tryFull y =
     (case k_writeWithAbortCheck K (world y) d buf nbyte checker tryFull of
        (r, w) \<Rightarrow>
          (r, y\<lparr>world := w,
                trace := trace y @ [WriteWithAbortCheck d buf nbyte checker tryFull]\<rparr>))"

section \<open>Construction, moves and teardown\<close>

text \<open>
  The constructor reads the flags \<^verbatim>\<open>ipv6\<close> and \<^verbatim>\<open>ipv4\<close> of \<^verbatim>\<open>WdtOptions::get()\<close>; they are
  parameters here. \<^verbatim>\<open>memset\<close> zeroes the hint, then the later assignment wins.
\<close>

definition ServerSocket_new :: "bool \<Rightarrow> bool \<Rightarrow> int \<Rightarrow> int \<Rightarrow> nat \<Rightarrow> ServerSocket" where
  "ServerSocket_new ipv6 ipv4 port0 backlog0 checker =
     \<lparr>port = port0, backlog = backlog0, listeningFd = -1, fd = -1,
      sa = \<lparr>ai_flags = AI_PASSIVE,
            ai_family = (if ipv4 then AF_INET else if ipv6 then AF_INET6 else 0),
            ai_socktype = SOCK_STREAM, ai_protocol = 0, ai_addrlen = 0, ai_addr = 0\<rparr>,
      abortChecker = checker\<rparr>"

text \<open>\<^verbatim>\<open>ServerSocket(ServerSocket &&that)\<close>: the new object and what is left of \<open>that\<close>.\<close>

definition move_construct :: "ServerSocket \<Rightarrow> ServerSocket \<times> ServerSocket" where
  "move_construct that =
     (\<lparr>port = port that, backlog = backlog that, listeningFd = listeningFd that,
       fd = fd that, sa = sa that, abortChecker = abortChecker that\<rparr>,
      that\<lparr>listeningFd := -1, fd := -1, port := -1\<rparr>)"

text \<open>
  \<^verbatim>\<open>operator=(ServerSocket &&that)\<close>: five \<^verbatim>\<open>swap\<close>s; \<^verbatim>\<open>backlog_\<close> is not among them.
  The result is \<open>(this, that)\<close> after the call.
\<close>

definition move_assign :: "ServerSocket \<Rightarrow> ServerSocket \<Rightarrow> ServerSocket \<times> ServerSocket" where
  "move_assign this that =
     (this\<lparr>port := port that, sa := sa that, listeningFd := listeningFd that,
           fd := fd that, abortChecker := abortChecker that\<rparr>,
      that\<lparr>port := port this, sa := sa this, listeningFd := listeningFd this,
           fd := fd this, abortChecker := abortChecker this\<rparr>)"

definition closeAll :: "'w kernel \<Rightarrow> ServerSocket \<Rightarrow> 'w sys \<Rightarrow> ServerSocket \<times> 'w sys" where
  "closeAll K this y =
     (case (if 0 \<le> fd this then
              (case sys_close K (fd this) y of
                 (ret, y1) \<Rightarrow>
                   (this\<lparr>fd := -1\<rparr>,
                    if ret \<noteq> 0 then LOG ERROR ''Error closing fd for server socket'' y1
                    else y1))
            else (this, y)) of
        (this1, y2) \<Rightarrow>
          if 0 \<le> listeningFd this1 then
            (case sys_close K (listeningFd this1) y2 of
               (ret, y3) \<Rightarrow>
                 (this1\<lparr>listeningFd := -1\<rparr>,
                  if ret \<noteq> 0
                  then LOG ERROR ''Error closing listening fd for server socket'' y3
                  else y3))
          else (this1, y2))"

text \<open>The destructor is \<^verbatim>\<open>closeAll()\<close>.\<close>

definition destroy :: "'w kernel \<Rightarrow> ServerSocket \<Rightarrow> 'w sys \<Rightarrow> ServerSocket \<times> 'w sys" where
  "destroy K this y = closeAll K this y"

section \<open>Connection I/O and accessors\<close>

definition read ::
  "'w kernel \<Rightarrow> ServerSocket \<Rightarrow> nat \<Rightarrow> int \<Rightarrow> bool \<Rightarrow> 'w sys \<Rightarrow> int \<times> ServerSocket \<times> 'w sys" where
  "read K this buf nbyte tryFull y =
     (case readWithAbortCheck K (fd this) buf nbyte (abortChecker this) tryFull y of
        (r, y1) \<Rightarrow> (r, this, y1))"

definition "write" ::
  "'w kernel \<Rightarrow> ServerSocket \<Rightarrow> nat \<Rightarrow> int \<Rightarrow> bool \<Rightarrow> 'w sys \<Rightarrow> int \<times> ServerSocket \<times> 'w sys" where
  "write K this buf nbyte tryFull y =
     (case writeWithAbortCheck K (fd this) buf nbyte (abortChecker this) tryFull y of
        (r, y1) \<Rightarrow> (r, this, y1))"

definition closeCurrentConnection ::
  "'w kernel \<Rightarrow> ServerSocket \<Rightarrow> 'w sys \<Rightarrow> int \<times> ServerSocket \<times> 'w sys" where
  "closeCurrentConnection K this y =
     (if 0 \<le> fd this then
        (case sys_close K (fd this) y of (retValue, y1) \<Rightarrow> (retValue, this\<lparr>fd := -1\<rparr>, y1))
      else (0, this, y))"

definition getListenFd :: "ServerSocket \<Rightarrow> int" where
  "getListenFd this = listeningFd this"

definition getFd :: "ServerSocket \<Rightarrow> int" where
  "getFd this = fd this"

definition getPort :: "ServerSocket \<Rightarrow> int" where
  "getPort this = port this"

definition getBackLog :: "ServerSocket \<Rightarrow> int" where
  "getBackLog this = backlog this"

section \<open>Bind and listen\<close>

text \<open>
  The \<^verbatim>\<open>for\<close> loop of \<^verbatim>\<open>listen()\<close> over the candidates, by recursion on the list.
  \<^verbatim>\<open>continue\<close> is the recursive call on the rest, \<^verbatim>\<open>break\<close> returns. The descriptor
  that \<^verbatim>\<open>socket\<close> returns is stored in \<^verbatim>\<open>listeningFd_\<close> before it is tested.
\<close>

fun bind_loop ::
  "'w kernel \<Rightarrow> addrinfo list \<Rightarrow> ServerSocket \<Rightarrow> 'w sys \<Rightarrow> ServerSocket \<times> 'w sys" where
  "bind_loop K [] this y = (this, y)"
| "bind_loop K (info # rest) this y =
     (case sys_socket K (ai_family info) (ai_socktype info) (ai_protocol info) y of
        (d, y1) \<Rightarrow>
          if d = -1 then
            bind_loop K rest (this\<lparr>listeningFd := d\<rparr>)
              (LOG WARNING ''Error making server socket'' y1)
          else
            (case sys_bind K d info y1 of
               (b, y2) \<Rightarrow>
                 if b \<noteq> 0 then
                   (case sys_close K d (LOG WARNING ''Error binding'' y2) of
                      (c, y3) \<Rightarrow> bind_loop K rest (this\<lparr>listeningFd := -1\<rparr>) y3)
                 else if port this = 0 then
                   (case sys_getsockname K d y2 of
                      ((g, sin_port), y3) \<Rightarrow>
                        if g = -1 then
                          bind_loop K rest (this\<lparr>listeningFd := d\<rparr>)
                            (LOG ERROR ''getsockname'' y3)
                        else
                          (this\<lparr>listeningFd := d, port := uint sin_port, sa := info\<rparr>, y3))
                 else (this\<lparr>listeningFd := d, sa := info\<rparr>, y2)))"

definition listen :: "'w kernel \<Rightarrow> ServerSocket \<Rightarrow> 'w sys \<Rightarrow> ErrorCode \<times> ServerSocket \<times> 'w sys" where
  "listen K this y =
     (if 0 < listeningFd this then (OK, this, y)
      else
        (case sys_getaddrinfo K (port this) (sa this) y of
           ((res, infoList), y1) \<Rightarrow>
             if res \<noteq> 0 then
               (CONN_ERROR, this, LOG ERROR ''Failed getaddrinfo ai_passive'' y1)
             else
               (case bind_loop K infoList this y1 of
                  (this2, y2) \<Rightarrow>
                    if listeningFd this2 \<le> 0 then
                      (CONN_ERROR_RETRYABLE, this2,
                       LOG ERROR ''Unable to bind port'' (sys_freeaddrinfo y2))
                    else
                      (case sys_listen K (listeningFd this2) (backlog this2)
                              (sys_freeaddrinfo y2) of
                         (l, y3) \<Rightarrow>
                           if l \<noteq> 0 then
                             (case sys_close K (listeningFd this2)
                                     (LOG ERROR ''listen error for port'' y3) of
                                (c, y4) \<Rightarrow>
                                  (CONN_ERROR_RETRYABLE, this2\<lparr>listeningFd := -1\<rparr>, y4))
                           else (OK, this2, y3)))))"

section \<open>Accept\<close>

text \<open>
  \<^verbatim>\<open>int pollTimeout = timeoutMillis - timeElapsed\<close>: both operands are 32-bit \<^verbatim>\<open>int\<close>s and
  so is the difference. It is the two's complement difference, as the compiled code
  computes it: it wraps around when the true difference does not fit in 32 bits (a clock
  that went back behind \<^verbatim>\<open>startTime\<close> makes \<^verbatim>\<open>timeElapsed\<close> negative).
\<close>

definition pollTimeout :: "int \<Rightarrow> int \<Rightarrow> int" where
  "pollTimeout timeoutMillis timeElapsed =
     sint (word_of_int timeoutMillis - word_of_int timeElapsed :: 32 word)"

text \<open>
  The \<^verbatim>\<open>while (true)\<close> loop of \<^verbatim>\<open>acceptNextConnection\<close>. It has no bound of its own: it
  runs for as long as \<^verbatim>\<open>poll\<close> keeps being interrupted and the clock stays below the
  budget, so it is a partial function, and \<open>None\<close> is the run that never leaves the loop.
  \<open>Some (False, y)\<close> is \<^verbatim>\<open>return CONN_ERROR\<close>, \<open>Some (True, y)\<close> is \<^verbatim>\<open>break\<close>.
\<close>

partial_function (option) poll_loop ::
  "'w kernel \<Rightarrow> int \<Rightarrow> int \<Rightarrow> ServerSocket \<Rightarrow> 'w sys \<Rightarrow> (bool \<times> 'w sys) option" where
  "poll_loop K timeoutMillis startTime this y =
     (case sys_now K y of
        (now, y1) \<Rightarrow>
          if timeoutMillis \<le> k_durationMillis K (now - startTime) then
            Some (False, LOG ERROR ''accept() timed out'' y1)
          else
            (case sys_poll K (listeningFd this)
                    (pollTimeout timeoutMillis (k_durationMillis K (now - startTime))) y1 of
               (retValue, y2) \<Rightarrow>
                 if retValue \<le> 0 then
                   if sys_errno K y2 = EINTR then poll_loop K timeoutMillis startTime this y2
                   else if retValue = 0 then Some (False, y2)
                   else Some (False, LOG ERROR ''poll() failed'' y2)
                 else Some (True, y2)))"

text \<open>The part of \<^verbatim>\<open>acceptNextConnection\<close> after the wait: the \<^verbatim>\<open>accept\<close> call itself.\<close>

definition accept_tail ::
  "'w kernel \<Rightarrow> ServerSocket \<Rightarrow> 'w sys \<Rightarrow> ErrorCode \<times> ServerSocket \<times> 'w sys" where
  "accept_tail K this y =
     (case sys_accept K (listeningFd this) y of
        (d, y1) \<Rightarrow>
          if d < 0 then (CONN_ERROR, this\<lparr>fd := d\<rparr>, LOG ERROR ''accept error'' y1)
          else (OK, this\<lparr>fd := d\<rparr>, setWriteTimeout K d (setReadTimeout K d y1)))"

definition acceptNextConnection ::
  "'w kernel \<Rightarrow> ServerSocket \<Rightarrow> int \<Rightarrow> 'w sys \<Rightarrow> (ErrorCode \<times> ServerSocket \<times> 'w sys) option" where
  "acceptNextConnection K this timeoutMillis y =
     (case listen K this y of
        (code, this1, y1) \<Rightarrow>
          if code \<noteq> OK then Some (code, this1, y1)
          else if 0 < timeoutMillis then
            (case sys_now K y1 of
               (startTime, y2) \<Rightarrow>
                 (case poll_loop K timeoutMillis startTime this1 y2 of
                    None \<Rightarrow> None
                  | Some (ready, y3) \<Rightarrow>
                      if ready then Some (accept_tail K this1 y3)
                      else Some (CONN_ERROR, this1, y3)))
          else Some (accept_tail K this1 y1))"

section \<open>A scripted kernel\<close>

text \<open>
  A kernel for running the model on concrete inputs: its world is the list of the answers
  still to give, and the current \<^verbatim>\<open>errno\<close>. Each call takes the next answer; a failing
  \<^verbatim>\<open>poll\<close> takes one more, for \<^verbatim>\<open>errno\<close>; \<^verbatim>\<open>getsockname\<close> takes its result and the port.
  A successful \<^verbatim>\<open>getaddrinfo\<close> returns the given candidates.
\<close>

definition pop :: "int list \<times> int \<Rightarrow> int \<times> (int list \<times> int)" where
  "pop w = (case fst w of [] \<Rightarrow> (-1, w) | a # as \<Rightarrow> (a, (as, snd w)))"

definition scripted :: "addrinfo list \<Rightarrow> (int list \<times> int) kernel" where
  "scripted cands =
     \<lparr>k_getaddrinfo = (\<lambda>w service hints.
         case pop w of (r, w1) \<Rightarrow> ((r, if r = 0 then cands else []), w1)),
      k_socket = (\<lambda>w fam ty proto. pop w),
      k_bind = (\<lambda>w d info. pop w),
      k_getsockname = (\<lambda>w d.
         case pop w of (r, w1) \<Rightarrow> (case pop w1 of (p, w2) \<Rightarrow> ((r, word_of_int p), w2))),
      k_listen = (\<lambda>w d n. pop w),
      k_close = (\<lambda>w d. pop w),
      k_now = pop,
      k_durationMillis = (\<lambda>d. d),
      k_poll = (\<lambda>w d t.
         case pop w of (r, w1) \<Rightarrow>
           if r < 0 then (case pop w1 of (e, w2) \<Rightarrow> (r, (fst w2, e))) else (r, w1)),
      k_errno = snd,
      k_accept = (\<lambda>w d. pop w),
      k_setReadTimeout = (\<lambda>w d. w),
      k_setWriteTimeout = (\<lambda>w d. w),
      k_readWithAbortCheck = (\<lambda>w d buf nbyte checker tryFull. pop w),
      k_writeWithAbortCheck = (\<lambda>w d buf nbyte checker tryFull. pop w)\<rparr>"

definition start :: "int list \<Rightarrow> (int list \<times> int) sys" where
  "start answers = \<lparr>world = (answers, 0), trace = [], logged = []\<rparr>"

definition cand4 :: addrinfo where
  "cand4 = \<lparr>ai_flags = 1, ai_family = 2, ai_socktype = 1, ai_protocol = 6,
            ai_addrlen = 16, ai_addr = 4096\<rparr>"

definition cand6 :: addrinfo where
  "cand6 = \<lparr>ai_flags = 1, ai_family = 10, ai_socktype = 1, ai_protocol = 6,
            ai_addrlen = 28, ai_addr = 8192\<rparr>"

declare poll_loop.simps [code]

section \<open>Ownership of descriptors\<close>

text \<open>
  The descriptors an object holds (a member below 0 holds none), and the descriptors a
  stretch of the trace closes, in order.
\<close>

definition owned :: "ServerSocket \<Rightarrow> int set" where
  "owned this = {d. 0 \<le> d \<and> (d = fd this \<or> d = listeningFd this)}"

fun closed :: "event list \<Rightarrow> int list" where
  "closed [] = []"
| "closed (Close d # evs) = d # closed evs"
| "closed (e # evs) = closed evs"

text \<open>Two live objects for the examples: \<open>sockA\<close> on port 9090, \<open>sockB\<close> on port 8080.\<close>

definition sockA :: ServerSocket where
  "sockA = \<lparr>port = 9090, backlog = 5, listeningFd = 5, fd = 6, sa = cand6, abortChecker = 0\<rparr>"

definition sockB :: ServerSocket where
  "sockB = \<lparr>port = 8080, backlog = 10, listeningFd = 3, fd = 4, sa = cand4, abortChecker = 0\<rparr>"

text \<open>Two fresh objects for the examples, as the constructor makes them (IPv4 only).\<close>

definition fresh8080 :: ServerSocket where
  "fresh8080 = ServerSocket_new False True 8080 10 0"

definition fresh0 :: ServerSocket where
  "fresh0 = ServerSocket_new False True 0 10 0"

text \<open>
  Every candidate of the list, tried in order from the world \<open>w\<close>, fails: \<^verbatim>\<open>socket\<close>
  returns \<open>-1\<close>, or it returns a descriptor and \<^verbatim>\<open>bind\<close> on it returns non-zero (the loop
  then closes the descriptor, and the next candidate meets the world after that).
\<close>

fun candidates_fail :: "'w kernel \<Rightarrow> addrinfo list \<Rightarrow> 'w \<Rightarrow> bool" where
  "candidates_fail K [] w = True"
| "candidates_fail K (info # rest) w =
     (case k_socket K w (ai_family info) (ai_socktype info) (ai_protocol info) of
        (d, w1) \<Rightarrow>
          if d = -1 then candidates_fail K rest w1
          else
            (case k_bind K w1 d info of
               (b, w2) \<Rightarrow> b \<noteq> 0 \<and> candidates_fail K rest (snd (k_close K w2 d))))"

section \<open>The accept wait, iteration by iteration\<close>

text \<open>The calls made between two states of the system.\<close>

definition since :: "'w sys \<Rightarrow> 'w sys \<Rightarrow> event list" where
  "since y y' = drop (length (trace y)) (trace y')"

text \<open>
  One iteration of the loop from the state \<open>y\<close>: \<open>elapsed\<close> is \<^verbatim>\<open>timeElapsed\<close>, read from the
  clock at the top of the iteration; \<open>poll_once\<close> is the \<^verbatim>\<open>poll\<close> call of the iteration, with
  \<^verbatim>\<open>pollTimeout\<close> computed from that reading. The iteration is interrupted when the budget
  is not used up, \<^verbatim>\<open>poll\<close> returns 0 or less and \<^verbatim>\<open>errno\<close> is \<^verbatim>\<open>EINTR\<close> after it.
\<close>

definition elapsed :: "'w kernel \<Rightarrow> int \<Rightarrow> 'w sys \<Rightarrow> int" where
  "elapsed K startTime y = k_durationMillis K (fst (sys_now K y) - startTime)"

definition poll_once :: "'w kernel \<Rightarrow> int \<Rightarrow> int \<Rightarrow> ServerSocket \<Rightarrow> 'w sys \<Rightarrow> int \<times> 'w sys" where
  "poll_once K timeoutMillis startTime this y =
     sys_poll K (listeningFd this) (pollTimeout timeoutMillis (elapsed K startTime y)) (snd (sys_now K y))"

definition interrupted :: "'w kernel \<Rightarrow> int \<Rightarrow> int \<Rightarrow> ServerSocket \<Rightarrow> 'w sys \<Rightarrow> bool" where
  "interrupted K timeoutMillis startTime this y =
     (elapsed K startTime y < timeoutMillis
      \<and> fst (poll_once K timeoutMillis startTime this y) \<le> 0
      \<and> sys_errno K (snd (poll_once K timeoutMillis startTime this y)) = EINTR)"

text \<open>
  The first \<open>n\<close> iterations from \<open>y\<close> are all interrupted; the state after them; and the calls
  they make.
\<close>

fun interruptions ::
  "'w kernel \<Rightarrow> int \<Rightarrow> int \<Rightarrow> ServerSocket \<Rightarrow> nat \<Rightarrow> 'w sys \<Rightarrow> bool" where
  "interruptions K timeoutMillis startTime this 0 y = True"
| "interruptions K timeoutMillis startTime this (Suc n) y =
     (interrupted K timeoutMillis startTime this y
      \<and> interruptions K timeoutMillis startTime this n
           (snd (poll_once K timeoutMillis startTime this y)))"

fun after_polls ::
  "'w kernel \<Rightarrow> int \<Rightarrow> int \<Rightarrow> ServerSocket \<Rightarrow> nat \<Rightarrow> 'w sys \<Rightarrow> 'w sys" where
  "after_polls K timeoutMillis startTime this 0 y = y"
| "after_polls K timeoutMillis startTime this (Suc n) y =
     after_polls K timeoutMillis startTime this n
       (snd (poll_once K timeoutMillis startTime this y))"

fun poll_events ::
  "'w kernel \<Rightarrow> int \<Rightarrow> int \<Rightarrow> ServerSocket \<Rightarrow> nat \<Rightarrow> 'w sys \<Rightarrow> event list" where
  "poll_events K timeoutMillis startTime this 0 y = []"
| "poll_events K timeoutMillis startTime this (Suc n) y =
     Now # Poll (listeningFd this) (pollTimeout timeoutMillis (elapsed K startTime y))
       # poll_events K timeoutMillis startTime this n
           (snd (poll_once K timeoutMillis startTime this y))"

text \<open>
  The true remaining time of each of these iterations fits in 32 bits; and the calls they
  make when each \<^verbatim>\<open>poll\<close> is given the true remaining time.
\<close>

fun budgets_fit ::
  "'w kernel \<Rightarrow> int \<Rightarrow> int \<Rightarrow> ServerSocket \<Rightarrow> nat \<Rightarrow> 'w sys \<Rightarrow> bool" where
  "budgets_fit K timeoutMillis startTime this 0 y = True"
| "budgets_fit K timeoutMillis startTime this (Suc n) y =
     (timeoutMillis - elapsed K startTime y < 2 ^ 31
      \<and> budgets_fit K timeoutMillis startTime this n
           (snd (poll_once K timeoutMillis startTime this y)))"

fun remaining_events ::
  "'w kernel \<Rightarrow> int \<Rightarrow> int \<Rightarrow> ServerSocket \<Rightarrow> nat \<Rightarrow> 'w sys \<Rightarrow> event list" where
  "remaining_events K timeoutMillis startTime this 0 y = []"
| "remaining_events K timeoutMillis startTime this (Suc n) y =
     Now # Poll (listeningFd this) (timeoutMillis - elapsed K startTime y)
       # remaining_events K timeoutMillis startTime this n
           (snd (poll_once K timeoutMillis startTime this y))"

text \<open>
  The same for a whole \<^verbatim>\<open>acceptNextConnection\<close>, counted from the state \<open>y1\<close> in which its
  \<^verbatim>\<open>listen()\<close> returned: \<open>wait_start\<close> is \<^verbatim>\<open>startTime\<close>.
\<close>

definition wait_start :: "'w kernel \<Rightarrow> 'w sys \<Rightarrow> int" where
  "wait_start K y1 = fst (sys_now K y1)"

definition wait_interrupted ::
  "'w kernel \<Rightarrow> int \<Rightarrow> ServerSocket \<Rightarrow> 'w sys \<Rightarrow> nat \<Rightarrow> bool" where
  "wait_interrupted K timeoutMillis this1 y1 n =
     interruptions K timeoutMillis (wait_start K y1) this1 n (snd (sys_now K y1))"

definition wait_budgets_fit ::
  "'w kernel \<Rightarrow> int \<Rightarrow> ServerSocket \<Rightarrow> 'w sys \<Rightarrow> nat \<Rightarrow> bool" where
  "wait_budgets_fit K timeoutMillis this1 y1 n =
     budgets_fit K timeoutMillis (wait_start K y1) this1 n (snd (sys_now K y1))"

definition wait_state ::
  "'w kernel \<Rightarrow> int \<Rightarrow> ServerSocket \<Rightarrow> 'w sys \<Rightarrow> nat \<Rightarrow> 'w sys" where
  "wait_state K timeoutMillis this1 y1 n =
     after_polls K timeoutMillis (wait_start K y1) this1 n (snd (sys_now K y1))"

text \<open>
  For the examples: the object and the system after a first \<^verbatim>\<open>listen()\<close> on \<open>fresh8080\<close> that
  bound descriptor 3, with the answers the scripted kernel has left.
\<close>

definition listening8080 :: ServerSocket where
  "listening8080 = fresh8080\<lparr>listeningFd := 3, sa := cand4\<rparr>"

definition listened :: "int list \<Rightarrow> (int list \<times> int) sys" where
  "listened answers =
     \<lparr>world = (answers, 0),
      trace = [GetAddrInfo 8080 (sa fresh8080), Socket 2 1 6, Bind 3 cand4, FreeAddrInfo,
               Listen 3 10],
      logged = []\<rparr>"

section \<open>The values of the descriptor members\<close>

text \<open>
  A descriptor member holds a descriptor or \<open>-1\<close>. The class keeps it so on a kernel whose
  \<^verbatim>\<open>socket\<close> and \<^verbatim>\<open>accept\<close> return a descriptor or \<open>-1\<close>, as POSIX has them.
\<close>

definition absent_or_descriptor :: "ServerSocket \<Rightarrow> bool" where
  "absent_or_descriptor this = (-1 \<le> fd this \<and> -1 \<le> listeningFd this)"

definition posix_results :: "'w kernel \<Rightarrow> bool" where
  "posix_results K =
     ((\<forall>w fam ty proto. -1 \<le> fst (k_socket K w fam ty proto))
      \<and> (\<forall>w d. -1 \<le> fst (k_accept K w d)))"

section \<open>Teardown\<close>

lemma closed_append: "closed (xs @ ys) = closed xs @ closed ys"
  by (induction xs rule: closed.induct) simp_all

lemma closed_map_Close: "closed (map Close ds) = ds"
  by (induction ds) simp_all

lemma closeAll_fields:
  "fst (closeAll K this y) =
     this\<lparr>fd := (if 0 \<le> fd this then -1 else fd this),
          listeningFd := (if 0 \<le> listeningFd this then -1 else listeningFd this)\<rparr>"
  by (simp add: closeAll_def split: prod.splits)

lemma closeAll_trace:
  "trace (snd (closeAll K this y)) =
     trace y @ map Close (filter (\<lambda>d. 0 \<le> d) [fd this, listeningFd this])"
  by (auto simp: closeAll_def sys_close_def LOG_def split: prod.splits)

lemma closeAll_absent:
  "fd this < 0 \<Longrightarrow> listeningFd this < 0 \<Longrightarrow> closeAll K this y = (this, y)"
  by (simp add: closeAll_def)

lemma owned_filter: "set (filter (\<lambda>d. 0 \<le> d) [fd this, listeningFd this]) = owned this"
  by (auto simp: owned_def)

text \<open>
  Claim C9. \<^verbatim>\<open>closeAll\<close> is idempotent. From every state it leaves both descriptor members
  below 0, and at \<open>-1\<close> whenever they held a descriptor or \<open>-1\<close> before (the only values the
  class stores, see \<open>absent_or_descriptor\<close> below); it closes exactly the descriptors
  that were present, the connection first, and keeps port and backlog. A \<^verbatim>\<open>close\<close> that
  fails is logged at \<^verbatim>\<open>ERROR\<close> and has no other effect: the member is reset all the same,
  and the function returns no value. A second call right after the first returns the same
  object and the same system state: it makes no call and logs nothing.
\<close>

theorem closeAll_idempotent:
  assumes "closeAll K this y = (this1, y1)"
  shows "fd this1 < 0 \<and> listeningFd this1 < 0
    \<and> (-1 \<le> fd this \<longrightarrow> fd this1 = -1)
    \<and> (-1 \<le> listeningFd this \<longrightarrow> listeningFd this1 = -1)
    \<and> port this1 = port this \<and> backlog this1 = backlog this
    \<and> trace y1 = trace y @ map Close (filter (\<lambda>d. 0 \<le> d) [fd this, listeningFd this])
    \<and> (0 \<le> fd this \<and> fst (sys_close K (fd this) y) \<noteq> 0 \<longrightarrow>
         (ERROR, ''Error closing fd for server socket'') \<in> set (logged y1))
    \<and> (0 \<le> listeningFd this
         \<and> fst (sys_close K (listeningFd this) (snd (snd (closeCurrentConnection K this y)))) \<noteq> 0
         \<longrightarrow> (ERROR, ''Error closing listening fd for server socket'') \<in> set (logged y1))
    \<and> closeAll K this1 y1 = (this1, y1)"
proof -
  have f: "this1 = fst (closeAll K this y)" and s: "y1 = snd (closeAll K this y)"
    using assms by simp_all
  have a: "fd this1 < 0" "listeningFd this1 < 0"
    by (simp_all add: f closeAll_fields)
  have a': "-1 \<le> fd this \<longrightarrow> fd this1 = -1"
    "-1 \<le> listeningFd this \<longrightarrow> listeningFd this1 = -1"
    by (auto simp: f closeAll_fields)
  have b: "port this1 = port this" "backlog this1 = backlog this"
    by (simp_all add: f closeAll_fields)
  have c: "trace y1 = trace y @ map Close (filter (\<lambda>d. 0 \<le> d) [fd this, listeningFd this])"
    unfolding s by (rule closeAll_trace)
  have d1: "0 \<le> fd this \<and> fst (sys_close K (fd this) y) \<noteq> 0 \<longrightarrow>
         (ERROR, ''Error closing fd for server socket'') \<in> set (logged y1)"
    unfolding s by (auto simp: closeAll_def sys_close_def LOG_def split: prod.splits)
  have d2: "0 \<le> listeningFd this
         \<and> fst (sys_close K (listeningFd this) (snd (snd (closeCurrentConnection K this y)))) \<noteq> 0
         \<longrightarrow> (ERROR, ''Error closing listening fd for server socket'') \<in> set (logged y1)"
    unfolding s
    by (auto simp: closeAll_def closeCurrentConnection_def sys_close_def LOG_def
        split: prod.splits)
  have e: "closeAll K this1 y1 = (this1, y1)"
    using a by (rule closeAll_absent)
  from a a' b c d1 d2 e show ?thesis by blast
qed

theorem closeAll_idempotent_witness:
  "-1 \<le> fd sockB \<and> -1 \<le> listeningFd sockB
   \<and> fst (sys_close (scripted []) (fd sockB) (start [-1, 0])) \<noteq> 0
   \<and> fd (fst (closeAll (scripted []) sockB (start [-1, 0]))) = -1
   \<and> listeningFd (fst (closeAll (scripted []) sockB (start [-1, 0]))) = -1
   \<and> trace (snd (closeAll (scripted []) sockB (start [-1, 0]))) = [Close 4, Close 3]
   \<and> (ERROR, ''Error closing fd for server socket'')
        \<in> set (logged (snd (closeAll (scripted []) sockB (start [-1, 0]))))
   \<and> closeAll (scripted []) (fst (closeAll (scripted []) sockB (start [-1, 0])))
        (snd (closeAll (scripted []) sockB (start [-1, 0])))
       = closeAll (scripted []) sockB (start [-1, 0])"
proof -
  have h: "-1 \<le> fd sockB" "-1 \<le> listeningFd sockB" "0 \<le> fd sockB"
    by (simp_all add: sockB_def)
  have v: "fd sockB = 4" "listeningFd sockB = 3"
    by (simp_all add: sockB_def)
  have g: "fst (sys_close (scripted []) (fd sockB) (start [-1, 0])) \<noteq> 0"
    by (simp add: sys_close_def scripted_def pop_def start_def)
  have e: "closeAll (scripted []) sockB (start [-1, 0]) =
      (fst (closeAll (scripted []) sockB (start [-1, 0])),
       snd (closeAll (scripted []) sockB (start [-1, 0])))"
    by simp
  note r = closeAll_idempotent [OF e]
  have t: "trace (start [-1, 0]) = []"
    by (simp add: start_def)
  from r h(1,2) have 1: "fd (fst (closeAll (scripted []) sockB (start [-1, 0]))) = -1"
    "listeningFd (fst (closeAll (scripted []) sockB (start [-1, 0]))) = -1"
    by blast+
  from r have 2: "trace (snd (closeAll (scripted []) sockB (start [-1, 0]))) =
      trace (start [-1, 0]) @ map Close (filter (\<lambda>d. 0 \<le> d) [fd sockB, listeningFd sockB])"
    by blast
  from r h(3) g have 3: "(ERROR, ''Error closing fd for server socket'')
        \<in> set (logged (snd (closeAll (scripted []) sockB (start [-1, 0]))))"
    by blast
  from r have 4: "closeAll (scripted []) (fst (closeAll (scripted []) sockB (start [-1, 0])))
        (snd (closeAll (scripted []) sockB (start [-1, 0])))
       = (fst (closeAll (scripted []) sockB (start [-1, 0])),
       snd (closeAll (scripted []) sockB (start [-1, 0])))"
    by blast
  show ?thesis
    using h(1,2) g 1 2 3 4 by (simp add: t v)
qed

section \<open>Moves\<close>

text \<open>
  Claim C1, as stated, fails for move assignment: \<^verbatim>\<open>operator=\<close> swaps the members, so the
  source \<open>sockA\<close> of \<^verbatim>\<open>sockB = std::move(sockA)\<close> is left with the descriptors 3 and 4 and
  the port 8080 that \<open>sockB\<close> held, none of them \<open>-1\<close>, and its destructor closes 4 and 3.
\<close>

theorem move_assign_source_keeps_descriptors:
  "listeningFd (snd (move_assign sockB sockA)) = 3
   \<and> fd (snd (move_assign sockB sockA)) = 4
   \<and> port (snd (move_assign sockB sockA)) = 8080
   \<and> listeningFd (snd (move_assign sockB sockA)) \<noteq> -1
   \<and> fd (snd (move_assign sockB sockA)) \<noteq> -1
   \<and> closed (trace (snd (destroy (scripted []) (snd (move_assign sockB sockA)) (start [0, 0]))))
       = [4, 3]"
  by (simp add: move_assign_def sockA_def sockB_def destroy_def closeAll_trace closed_map_Close start_def)

text \<open>
  Claim C1, amended. Move assignment \<^verbatim>\<open>this = std::move(that)\<close> exchanges port, address hint,
  both descriptors and abort checker between the two objects, and each keeps its backlog.
  So the source is left with what the target held before: its destructor closes exactly
  the descriptors the target held before the move, none of which the target holds now
  when the two objects held different descriptors before the move; and the source is left
  with both descriptors at \<open>-1\<close>, its destructor closing nothing, when the target held none.
  Move construction does leave the source with both descriptors and the port at \<open>-1\<close>, the
  new object with every member of the source, and the source's destructor closes nothing.
\<close>

theorem move_assign_exchanges:
  assumes "move_assign this that = (this', that')"
  shows "listeningFd that' = listeningFd this \<and> fd that' = fd this \<and> port that' = port this
    \<and> sa that' = sa this \<and> abortChecker that' = abortChecker this
    \<and> backlog that' = backlog that
    \<and> listeningFd this' = listeningFd that \<and> fd this' = fd that \<and> port this' = port that
    \<and> sa this' = sa that \<and> abortChecker this' = abortChecker that
    \<and> backlog this' = backlog this
    \<and> trace (snd (destroy K that' y)) =
        trace y @ map Close (filter (\<lambda>d. 0 \<le> d) [fd this, listeningFd this])
    \<and> (owned this \<inter> owned that = {} \<longrightarrow>
         set (closed (drop (length (trace y)) (trace (snd (destroy K that' y)))))
           \<inter> owned this' = {})
    \<and> (fd this = -1 \<and> listeningFd this = -1 \<longrightarrow>
         fd that' = -1 \<and> listeningFd that' = -1 \<and> destroy K that' y = (that', y))
    \<and> snd (move_construct that) = that\<lparr>listeningFd := -1, fd := -1, port := -1\<rparr>
    \<and> fst (move_construct that) = that
    \<and> destroy K (snd (move_construct that)) y = (snd (move_construct that), y)"
proof -
  have t: "that' = snd (move_assign this that)" and h: "this' = fst (move_assign this that)"
    using assms by simp_all
  have 1: "listeningFd that' = listeningFd this \<and> fd that' = fd this \<and> port that' = port this
    \<and> sa that' = sa this \<and> abortChecker that' = abortChecker this
    \<and> backlog that' = backlog that"
    by (simp add: t move_assign_def)
  have 2: "listeningFd this' = listeningFd that \<and> fd this' = fd that \<and> port this' = port that
    \<and> sa this' = sa that \<and> abortChecker this' = abortChecker that
    \<and> backlog this' = backlog this"
    by (simp add: h move_assign_def)
  have 3: "trace (snd (destroy K that' y)) =
        trace y @ map Close (filter (\<lambda>d. 0 \<le> d) [fd this, listeningFd this])"
    using 1 by (simp add: destroy_def closeAll_trace)
  have o: "owned this' = owned that"
    using 2 by (simp add: owned_def)
  have 4: "owned this \<inter> owned that = {} \<longrightarrow>
         set (closed (drop (length (trace y)) (trace (snd (destroy K that' y)))))
           \<inter> owned this' = {}"
    unfolding 3 o by (simp only: append_eq_conv_conj drop_append closed_map_Close owned_filter
        drop_all order_refl diff_self_eq_0 drop_0 append_Nil) simp
  have 5: "fd this = -1 \<and> listeningFd this = -1 \<longrightarrow>
         fd that' = -1 \<and> listeningFd that' = -1 \<and> destroy K that' y = (that', y)"
    using 1 by (simp add: destroy_def closeAll_absent)
  have 6: "snd (move_construct that) = that\<lparr>listeningFd := -1, fd := -1, port := -1\<rparr>"
    "fst (move_construct that) = that"
    by (simp_all add: move_construct_def)
  have 7: "destroy K (snd (move_construct that)) y = (snd (move_construct that), y)"
    by (simp add: destroy_def closeAll_absent 6)
  from 1 2 3 4 5 6 7 show ?thesis by simp
qed

theorem move_assign_exchanges_witness:
  "owned sockB \<inter> owned sockA = {}
   \<and> listeningFd (snd (move_assign sockB sockA)) = 3
   \<and> fd (snd (move_assign sockB sockA)) = 4
   \<and> port (snd (move_assign sockB sockA)) = 8080
   \<and> set (closed (drop (length (trace (start [0, 0])))
        (trace (snd (destroy (scripted []) (snd (move_assign sockB sockA)) (start [0, 0]))))))
       \<inter> owned (fst (move_assign sockB sockA)) = {}"
proof -
  have d: "owned sockB \<inter> owned sockA = {}"
    by (auto simp: owned_def sockA_def sockB_def)
  have e: "move_assign sockB sockA = (fst (move_assign sockB sockA), snd (move_assign sockB sockA))"
    by simp
  note r = move_assign_exchanges [OF e, of "scripted []" "start [0, 0]"]
  from r have a: "listeningFd (snd (move_assign sockB sockA)) = listeningFd sockB"
    "fd (snd (move_assign sockB sockA)) = fd sockB"
    "port (snd (move_assign sockB sockA)) = port sockB"
    by blast+
  from r d have c: "set (closed (drop (length (trace (start [0, 0])))
        (trace (snd (destroy (scripted []) (snd (move_assign sockB sockA)) (start [0, 0]))))))
       \<inter> owned (fst (move_assign sockB sockA)) = {}"
    by blast
  have v: "listeningFd sockB = 3" "fd sockB = 4" "port sockB = 8080"
    by (simp_all add: sockB_def)
  show ?thesis
    using a c d unfolding v by blast
qed

section \<open>Closing the connection, reading and writing\<close>

text \<open>
  Claim C8. \<^verbatim>\<open>closeCurrentConnection\<close> leaves the listening descriptor, the port, the
  backlog, the address hint and the abort checker as they were, in every state, and logs
  nothing. When a connection is active (\<open>fd\<close> is at least 0) it makes one call,
  \<^verbatim>\<open>close(fd_)\<close>, returns its result and resets \<open>fd\<close> to \<open>-1\<close>; when none is active it
  returns 0 and changes neither the object nor the system.
\<close>

theorem closeCurrentConnection_frame:
  "(case closeCurrentConnection K this y of
      (retValue, this1, y1) \<Rightarrow>
        listeningFd this1 = listeningFd this \<and> port this1 = port this
        \<and> backlog this1 = backlog this \<and> sa this1 = sa this
        \<and> abortChecker this1 = abortChecker this \<and> logged y1 = logged y
        \<and> (if 0 \<le> fd this
            then fd this1 = -1 \<and> trace y1 = trace y @ [Close (fd this)]
              \<and> (retValue, world y1) = k_close K (world y) (fd this)
            else retValue = 0 \<and> this1 = this \<and> y1 = y))"
  by (simp add: closeCurrentConnection_def sys_close_def split: prod.splits)

text \<open>
  Claim C10. \<^verbatim>\<open>read\<close> and \<^verbatim>\<open>write\<close> make one call each, to \<^verbatim>\<open>readWithAbortCheck\<close> and
  \<^verbatim>\<open>writeWithAbortCheck\<close>, with the current \<open>fd\<close> whatever it is (also \<open>-1\<close>: there is no
  test), the buffer, the length, the abort checker and the flag as given; they return the
  collaborator's result and the object unchanged.
\<close>

theorem read_write_forward:
  "read K this buf nbyte tryFull y =
     (case k_readWithAbortCheck K (world y) (fd this) buf nbyte (abortChecker this) tryFull of
        (r, w) \<Rightarrow>
          (r, this,
           y\<lparr>world := w,
             trace := trace y @
               [ReadWithAbortCheck (fd this) buf nbyte (abortChecker this) tryFull]\<rparr>))
   \<and> write K this buf nbyte tryFull y =
     (case k_writeWithAbortCheck K (world y) (fd this) buf nbyte (abortChecker this) tryFull of
        (r, w) \<Rightarrow>
          (r, this,
           y\<lparr>world := w,
             trace := trace y @
               [WriteWithAbortCheck (fd this) buf nbyte (abortChecker this) tryFull]\<rparr>))"
  by (simp add: read_def write_def readWithAbortCheck_def writeWithAbortCheck_def
      split: prod.splits)

section \<open>Bind and listen: proofs\<close>

lemma world_LOG: "world (LOG sev msg y) = world y"
  by (simp add: LOG_def)

lemma trace_LOG: "trace (LOG sev msg y) = trace y"
  by (simp add: LOG_def)

lemma bind_loop_all_fail:
  "candidates_fail K infos (world y) \<Longrightarrow>
   listeningFd (fst (bind_loop K infos this y)) = (if infos = [] then listeningFd this else -1)
   \<and> port (fst (bind_loop K infos this y)) = port this
   \<and> fd (fst (bind_loop K infos this y)) = fd this"
proof (induction infos arbitrary: this y)
  case Nil
  then show ?case by simp
next
  case (Cons info rest)
  obtain d w1 where s: "k_socket K (world y) (ai_family info) (ai_socktype info) (ai_protocol info) = (d, w1)"
    by (cases "k_socket K (world y) (ai_family info) (ai_socktype info) (ai_protocol info)")
  show ?case
  proof (cases "d = -1")
    case True
    with Cons.prems s have "candidates_fail K rest w1" by simp
    from Cons.IH [of "LOG WARNING ''Error making server socket''
        (y\<lparr>world := w1, trace := trace y @ [Socket (ai_family info) (ai_socktype info) (ai_protocol info)]\<rparr>)"
        "this\<lparr>listeningFd := -1\<rparr>"] this
    show ?thesis using s True
      by (cases rest) (simp_all add: sys_socket_def world_LOG)
  next
    case False
    obtain b w2 where b: "k_bind K w1 d info = (b, w2)"
      by (cases "k_bind K w1 d info")
    obtain c w3 where c: "k_close K w2 d = (c, w3)"
      by (cases "k_close K w2 d")
    from Cons.prems s False b c have nz: "b \<noteq> 0" and r: "candidates_fail K rest w3"
      by simp_all
    from Cons.IH [of "(LOG WARNING ''Error binding''
        (y\<lparr>world := w2, trace := trace y @ [Socket (ai_family info) (ai_socktype info) (ai_protocol info), Bind d info]\<rparr>))
          \<lparr>world := w3, trace := trace y @ [Socket (ai_family info) (ai_socktype info) (ai_protocol info), Bind d info, Close d]\<rparr>"
        "this\<lparr>listeningFd := -1\<rparr>"] r
    show ?thesis using s False b c nz
      by (cases rest) (simp_all add: sys_socket_def sys_bind_def sys_close_def world_LOG trace_LOG LOG_def)
  qed
qed

text \<open>
  Claim C4. When \<^verbatim>\<open>listen()\<close> gets as far as resolving (the listening descriptor is not
  above 0), a failing \<^verbatim>\<open>getaddrinfo\<close> makes it return \<^verbatim>\<open>CONN_ERROR\<close> with the object
  unchanged, after that one call and one \<^verbatim>\<open>ERROR\<close> line; and when \<^verbatim>\<open>getaddrinfo\<close> succeeds
  and every candidate fails at \<^verbatim>\<open>socket\<close> or at \<^verbatim>\<open>bind\<close>, it returns
  \<^verbatim>\<open>CONN_ERROR_RETRYABLE\<close>, with no listening descriptor and the port and the connection
  descriptor as they were. \<open>listen\<close> is a function, so each case has this one outcome.
\<close>

theorem listen_bind_phase_failures:
  assumes "listeningFd this \<le> 0"
    and "k_getaddrinfo K (world y) (port this) (sa this) = ((res, infoList), w1)"
  shows "(res \<noteq> 0 \<longrightarrow>
           listen K this y =
             (CONN_ERROR, this,
              LOG ERROR ''Failed getaddrinfo ai_passive''
                (y\<lparr>world := w1, trace := trace y @ [GetAddrInfo (port this) (sa this)]\<rparr>)))
    \<and> (res = 0 \<and> candidates_fail K infoList w1 \<longrightarrow>
           fst (listen K this y) = CONN_ERROR_RETRYABLE
           \<and> listeningFd (fst (snd (listen K this y))) \<le> 0
           \<and> port (fst (snd (listen K this y))) = port this
           \<and> fd (fst (snd (listen K this y))) = fd this)"
proof -
  let ?y1 = "y\<lparr>world := w1, trace := trace y @ [GetAddrInfo (port this) (sa this)]\<rparr>"
  have g: "sys_getaddrinfo K (port this) (sa this) y = ((res, infoList), ?y1)"
    using assms(2) by (simp add: sys_getaddrinfo_def)
  have a: "res \<noteq> 0 \<longrightarrow>
           listen K this y = (CONN_ERROR, this, LOG ERROR ''Failed getaddrinfo ai_passive'' ?y1)"
    using assms(1) g by (simp add: listen_def)
  have b: "fst (listen K this y) = CONN_ERROR_RETRYABLE
           \<and> listeningFd (fst (snd (listen K this y))) \<le> 0
           \<and> port (fst (snd (listen K this y))) = port this
           \<and> fd (fst (snd (listen K this y))) = fd this"
    if r: "res = 0" and c: "candidates_fail K infoList w1"
  proof -
    obtain this2 y2 where bl: "bind_loop K infoList this ?y1 = (this2, y2)"
      by (cases "bind_loop K infoList this ?y1")
    from c have "candidates_fail K infoList (world ?y1)" by simp
    from bind_loop_all_fail [OF this, of this] bl
    have l: "listeningFd this2 \<le> 0" and p: "port this2 = port this"
      and f: "fd this2 = fd this"
      using assms(1) by (simp_all split: if_splits)
    show ?thesis
      using assms(1) g r bl l p f by (simp add: listen_def)
  qed
  from a b show ?thesis by blast
qed

theorem listen_bind_phase_failures_witness:
  "listeningFd fresh8080 \<le> 0
   \<and> k_getaddrinfo (scripted [cand4, cand6]) (world (start [0, -1, 3, -1, 0]))
        (port fresh8080) (sa fresh8080) = ((0, [cand4, cand6]), ([-1, 3, -1, 0], 0))
   \<and> candidates_fail (scripted [cand4, cand6]) [cand4, cand6] ([-1, 3, -1, 0], 0)
   \<and> fst (listen (scripted [cand4, cand6]) fresh8080 (start [0, -1, 3, -1, 0]))
       = CONN_ERROR_RETRYABLE
   \<and> k_getaddrinfo (scripted [cand4, cand6]) (world (start [-2]))
        (port fresh8080) (sa fresh8080) = ((-2, []), ([], 0))
   \<and> fst (listen (scripted [cand4, cand6]) fresh8080 (start [-2])) = CONN_ERROR"
proof -
  have h: "listeningFd fresh8080 \<le> 0"
    by (simp add: fresh8080_def ServerSocket_new_def)
  have g1: "k_getaddrinfo (scripted [cand4, cand6]) (world (start [0, -1, 3, -1, 0]))
        (port fresh8080) (sa fresh8080) = ((0, [cand4, cand6]), ([-1, 3, -1, 0], 0))"
    by (simp add: scripted_def pop_def start_def)
  have c: "candidates_fail (scripted [cand4, cand6]) [cand4, cand6] ([-1, 3, -1, 0], 0)"
    by (simp add: scripted_def pop_def)
  have g2: "k_getaddrinfo (scripted [cand4, cand6]) (world (start [-2]))
        (port fresh8080) (sa fresh8080) = ((-2, []), ([], 0))"
    by (simp add: scripted_def pop_def start_def)
  from listen_bind_phase_failures [OF h g1] c
  have r1: "fst (listen (scripted [cand4, cand6]) fresh8080 (start [0, -1, 3, -1, 0]))
       = CONN_ERROR_RETRYABLE"
    by blast
  from listen_bind_phase_failures [OF h g2]
  have r2: "fst (listen (scripted [cand4, cand6]) fresh8080 (start [-2])) = CONN_ERROR"
    by simp
  from h g1 c r1 g2 r2 show ?thesis by blast
qed

lemma bind_loop_trace: "\<exists>evs. trace (snd (bind_loop K infos this y)) = trace y @ evs"
proof (induction infos arbitrary: this y)
  case Nil
  show ?case by simp
next
  case (Cons info rest)
  have step: "\<exists>evs. trace (snd (bind_loop K rest t z)) = trace y @ evs"
    if "\<exists>pre. trace z = trace y @ pre" for t z
  proof -
    from that obtain pre where p: "trace z = trace y @ pre" ..
    from Cons.IH [of t z] obtain evs where "trace (snd (bind_loop K rest t z)) = trace z @ evs" ..
    with p have "trace (snd (bind_loop K rest t z)) = trace y @ (pre @ evs)" by simp
    then show ?thesis ..
  qed
  show ?case
    by (auto simp: sys_socket_def sys_bind_def sys_close_def sys_getsockname_def LOG_def
        split: prod.splits intro!: step)
qed

lemma listen_resolves_first:
  assumes "listeningFd this \<le> 0"
  shows "take (Suc (length (trace y))) (trace (snd (snd (listen K this y))))
    = trace y @ [GetAddrInfo (port this) (sa this)]"
proof -
  obtain res infoList w1 where g: "k_getaddrinfo K (world y) (port this) (sa this) = ((res, infoList), w1)"
    by (metis surj_pair)
  let ?y1 = "y\<lparr>world := w1, trace := trace y @ [GetAddrInfo (port this) (sa this)]\<rparr>"
  obtain this2 y2 where bl: "bind_loop K infoList this ?y1 = (this2, y2)"
    by (cases "bind_loop K infoList this ?y1")
  from bind_loop_trace [of K infoList this ?y1] bl
  obtain evs where t: "trace y2 = trace y @ GetAddrInfo (port this) (sa this) # evs"
    by auto
  show ?thesis
    using assms g bl t
    by (auto simp: listen_def sys_getaddrinfo_def sys_listen_def sys_close_def
        sys_freeaddrinfo_def LOG_def split: prod.splits)
qed

text \<open>
  Claim C5. A run of \<^verbatim>\<open>listen()\<close> that resolves, leaves the loop with a listening descriptor
  above 0 (a candidate was bound) and whose \<^verbatim>\<open>::listen\<close> call returns non-zero, returns
  \<^verbatim>\<open>CONN_ERROR_RETRYABLE\<close>; its last three calls are \<^verbatim>\<open>freeaddrinfo\<close>, the failing
  \<^verbatim>\<open>::listen\<close> and \<^verbatim>\<open>close\<close> of that descriptor, and it leaves the listening descriptor at
  \<open>-1\<close> and the other members as the loop left them. The next \<^verbatim>\<open>listen()\<close> on that object
  starts with \<^verbatim>\<open>getaddrinfo\<close>: it resolves again.
\<close>

theorem listen_syscall_failure:
  assumes "listeningFd this \<le> 0"
    and "sys_getaddrinfo K (port this) (sa this) y = ((0, infoList), y1)"
    and "bind_loop K infoList this y1 = (this2, y2)"
    and "0 < listeningFd this2"
    and "sys_listen K (listeningFd this2) (backlog this2) (sys_freeaddrinfo y2) = (l, y3)"
    and "l \<noteq> 0"
    and "listen K this y = (code, this', y')"
  shows "code = CONN_ERROR_RETRYABLE
    \<and> this' = this2\<lparr>listeningFd := -1\<rparr>
    \<and> listeningFd this' = -1
    \<and> trace y' = trace y2 @
        [FreeAddrInfo, Listen (listeningFd this2) (backlog this2), Close (listeningFd this2)]
    \<and> take (Suc (length (trace y'))) (trace (snd (snd (listen K this' y'))))
        = trace y' @ [GetAddrInfo (port this') (sa this')]"
proof -
  have a: "code = CONN_ERROR_RETRYABLE" and b: "this' = this2\<lparr>listeningFd := -1\<rparr>"
    and c: "trace y' = trace y2 @
        [FreeAddrInfo, Listen (listeningFd this2) (backlog this2), Close (listeningFd this2)]"
    using assms
    by (auto simp: listen_def sys_listen_def sys_close_def sys_freeaddrinfo_def LOG_def
        split: prod.splits)
  from b have d: "listeningFd this' = -1" by simp
  then have "listeningFd this' \<le> 0" by simp
  from listen_resolves_first [OF this]
  have e: "take (Suc (length (trace y'))) (trace (snd (snd (listen K this' y'))))
        = trace y' @ [GetAddrInfo (port this') (sa this')]" .
  from a b c d e show ?thesis by blast
qed

theorem listen_syscall_failure_witness:
  "listeningFd fresh8080 \<le> 0
   \<and> fst (listen (scripted [cand4]) fresh8080 (start [0, 3, 0, -1, 0, 0, 3, 0, 0]))
       = CONN_ERROR_RETRYABLE
   \<and> listeningFd (fst (snd (listen (scripted [cand4]) fresh8080
        (start [0, 3, 0, -1, 0, 0, 3, 0, 0])))) = -1
   \<and> trace (snd (snd (listen (scripted [cand4]) fresh8080
        (start [0, 3, 0, -1, 0, 0, 3, 0, 0]))))
       = [GetAddrInfo 8080 (sa fresh8080), Socket 2 1 6, Bind 3 cand4, FreeAddrInfo,
          Listen 3 10, Close 3]
   \<and> fst (listen (scripted [cand4])
        (fst (snd (listen (scripted [cand4]) fresh8080 (start [0, 3, 0, -1, 0, 0, 3, 0, 0]))))
        (snd (snd (listen (scripted [cand4]) fresh8080 (start [0, 3, 0, -1, 0, 0, 3, 0, 0])))))
       = OK"
proof -
  let ?K = "scripted [cand4]"
  let ?y = "start [0, 3, 0, -1, 0, 0, 3, 0, 0]"
  let ?y1 = "\<lparr>world = ([3, 0, -1, 0, 0, 3, 0, 0] :: int list, 0 :: int),
              trace = [GetAddrInfo 8080 (sa fresh8080)], logged = []\<rparr>"
  let ?this2 = "fresh8080\<lparr>listeningFd := 3, sa := cand4\<rparr>"
  let ?y2 = "\<lparr>world = ([-1, 0, 0, 3, 0, 0] :: int list, 0 :: int),
              trace = [GetAddrInfo 8080 (sa fresh8080), Socket 2 1 6, Bind 3 cand4],
              logged = []\<rparr>"
  let ?y3 = "\<lparr>world = ([0, 0, 3, 0, 0] :: int list, 0 :: int),
              trace = [GetAddrInfo 8080 (sa fresh8080), Socket 2 1 6, Bind 3 cand4,
                       FreeAddrInfo, Listen 3 10],
              logged = []\<rparr>"
  have h1: "listeningFd fresh8080 \<le> 0"
    by (simp add: fresh8080_def ServerSocket_new_def)
  have h2: "sys_getaddrinfo ?K (port fresh8080) (sa fresh8080) ?y = ((0, [cand4]), ?y1)"
    by (simp add: sys_getaddrinfo_def scripted_def pop_def start_def fresh8080_def
        ServerSocket_new_def)
  have h3: "bind_loop ?K [cand4] fresh8080 ?y1 = (?this2, ?y2)"
    by (simp add: sys_socket_def sys_bind_def scripted_def pop_def fresh8080_def
        ServerSocket_new_def cand4_def)
  have h4: "0 < listeningFd ?this2"
    by simp
  have h5: "sys_listen ?K (listeningFd ?this2) (backlog ?this2) (sys_freeaddrinfo ?y2) = (-1, ?y3)"
    by (simp add: sys_listen_def sys_freeaddrinfo_def scripted_def pop_def fresh8080_def
        ServerSocket_new_def)
  have h6: "(-1::int) \<noteq> 0"
    by simp
  have h7: "listen ?K fresh8080 ?y = (fst (listen ?K fresh8080 ?y),
      fst (snd (listen ?K fresh8080 ?y)), snd (snd (listen ?K fresh8080 ?y)))"
    by simp
  note r = listen_syscall_failure [OF h1 h2 h3 h4 h5 h6 h7]
  from r have 1: "fst (listen ?K fresh8080 ?y) = CONN_ERROR_RETRYABLE" by blast
  from r have 2: "listeningFd (fst (snd (listen ?K fresh8080 ?y))) = -1" by blast
  from r have 3: "trace (snd (snd (listen ?K fresh8080 ?y))) = trace ?y2 @
        [FreeAddrInfo, Listen (listeningFd ?this2) (backlog ?this2), Close (listeningFd ?this2)]"
    by blast
  have 4: "backlog fresh8080 = 10"
    by (simp add: fresh8080_def ServerSocket_new_def)
  have 5: "fst (listen ?K (fst (snd (listen ?K fresh8080 ?y))) (snd (snd (listen ?K fresh8080 ?y))))
       = OK"
    by code_simp
  from h1 1 2 3 4 5 show ?thesis by simp
qed

text \<open>
  A listening descriptor above 0 makes \<^verbatim>\<open>listen()\<close> return \<^verbatim>\<open>OK\<close> at once, with no call made
  and nothing changed; \<^verbatim>\<open>listen()\<close> returns \<^verbatim>\<open>OK\<close> only with such a descriptor, so a second
  \<^verbatim>\<open>listen()\<close> after a successful one does nothing.
\<close>

lemma listen_when_listening:
  "0 < listeningFd this \<Longrightarrow> listen K this y = (OK, this, y)"
  by (simp add: listen_def)

lemma listen_OK_listening:
  "listen K this y = (OK, this1, y1) \<Longrightarrow> 0 < listeningFd this1"
  by (auto simp: listen_def split: prod.splits if_splits)

lemma listen_twice:
  "listen K this y = (OK, this1, y1) \<Longrightarrow> listen K this1 y1 = (OK, this1, y1)"
  by (rule listen_when_listening) (rule listen_OK_listening)

text \<open>
  Claim C2 at the descriptor 0. \<^verbatim>\<open>listen()\<close> tests \<^verbatim>\<open>listeningFd_ > 0\<close>, while \<^verbatim>\<open>socket\<close>'s
  failure is \<open>-1\<close> and \<^verbatim>\<open>closeAll\<close> takes 0 for a descriptor. On a fresh object for port
  8080, when \<^verbatim>\<open>socket\<close> returns 0 and \<^verbatim>\<open>bind\<close> succeeds, the first \<^verbatim>\<open>listen()\<close> returns
  \<^verbatim>\<open>CONN_ERROR_RETRYABLE\<close> with the bound descriptor 0 still stored and never closed; the
  second \<^verbatim>\<open>listen()\<close>, on this bound object, does not return \<^verbatim>\<open>OK\<close> at once: it resolves,
  creates a socket and binds again.
\<close>

theorem listen_descriptor_zero_resolves_again:
  "(case listen (scripted [cand4]) fresh8080 (start [0, 0, 0, 0, 3, -1, 0]) of
      (code1, this1, y1) \<Rightarrow>
        code1 = CONN_ERROR_RETRYABLE \<and> listeningFd this1 = 0 \<and> closed (trace y1) = []
        \<and> trace y1 = [GetAddrInfo 8080 (sa fresh8080), Socket 2 1 6, Bind 0 cand4, FreeAddrInfo]
        \<and> (case listen (scripted [cand4]) this1 y1 of
              (code2, this2, y2) \<Rightarrow>
                code2 = CONN_ERROR_RETRYABLE \<and> listeningFd this2 = -1
                \<and> trace y2 = trace y1 @
                     [GetAddrInfo 8080 cand4, Socket 2 1 6, Bind 3 cand4, Close 3, FreeAddrInfo]))"
  by code_simp

text \<open>
  Claim C3 when \<^verbatim>\<open>getsockname\<close> fails. On a fresh object for port 0 with one candidate,
  \<^verbatim>\<open>socket\<close> returns 3, \<^verbatim>\<open>bind\<close> succeeds and \<^verbatim>\<open>getsockname\<close> returns \<open>-1\<close>: the loop
  \<^verbatim>\<open>continue\<close>s with the descriptor still stored, the list ends, \<^verbatim>\<open>::listen\<close> succeeds, and
  \<^verbatim>\<open>listen()\<close> returns \<^verbatim>\<open>OK\<close> while \<^verbatim>\<open>getPort()\<close> is still 0.
\<close>

theorem listen_ok_with_port_zero:
  "(case listen (scripted [cand4]) fresh0 (start [0, 3, 0, -1, 0, 0]) of
      (code, this1, y1) \<Rightarrow>
        code = OK \<and> getPort this1 = 0 \<and> getListenFd this1 = 3
        \<and> trace y1 = [GetAddrInfo 0 (sa fresh0), Socket 2 1 6, Bind 3 cand4, GetSockName 3,
                       FreeAddrInfo, Listen 3 10]
        \<and> logged y1 = [(ERROR, ''getsockname'')])"
  by code_simp

section \<open>Accept: proofs\<close>

text \<open>The loop equation, one iteration unfolded.\<close>

lemma poll_loop_unfold:
  "poll_loop K timeoutMillis startTime this y =
     (if timeoutMillis \<le> elapsed K startTime y then
        Some (False, LOG ERROR ''accept() timed out'' (snd (sys_now K y)))
      else if fst (poll_once K timeoutMillis startTime this y) \<le> 0 then
        if sys_errno K (snd (poll_once K timeoutMillis startTime this y)) = EINTR then
          poll_loop K timeoutMillis startTime this (snd (poll_once K timeoutMillis startTime this y))
        else if fst (poll_once K timeoutMillis startTime this y) = 0 then
          Some (False, snd (poll_once K timeoutMillis startTime this y))
        else Some (False, LOG ERROR ''poll() failed'' (snd (poll_once K timeoutMillis startTime this y)))
      else Some (True, snd (poll_once K timeoutMillis startTime this y)))"
  by (subst poll_loop.simps) (simp add: elapsed_def poll_once_def split: prod.splits)

lemma poll_once_trace:
  "trace (snd (poll_once K timeoutMillis startTime this y)) =
     trace y @ [Now, Poll (listeningFd this) (pollTimeout timeoutMillis (elapsed K startTime y))]"
  by (simp add: poll_once_def sys_poll_def sys_now_def split: prod.splits)

lemma poll_once_logged:
  "logged (snd (poll_once K timeoutMillis startTime this y)) = logged y"
  by (simp add: poll_once_def sys_poll_def sys_now_def split: prod.splits)

text \<open>Interrupted iterations are skipped over: the loop goes on from the state after them.\<close>

lemma poll_loop_interruptions:
  "interruptions K timeoutMillis startTime this n y \<Longrightarrow>
   poll_loop K timeoutMillis startTime this y =
     poll_loop K timeoutMillis startTime this (after_polls K timeoutMillis startTime this n y)"
proof (induction n arbitrary: y)
  case 0
  show ?case by simp
next
  case (Suc n)
  from Suc.prems have i: "interrupted K timeoutMillis startTime this y"
    and r: "interruptions K timeoutMillis startTime this n
           (snd (poll_once K timeoutMillis startTime this y))"
    by simp_all
  have "poll_loop K timeoutMillis startTime this y =
      poll_loop K timeoutMillis startTime this (snd (poll_once K timeoutMillis startTime this y))"
    using i by (subst poll_loop_unfold) (simp add: interrupted_def)
  also have "\<dots> = poll_loop K timeoutMillis startTime this
      (after_polls K timeoutMillis startTime this n (snd (poll_once K timeoutMillis startTime this y)))"
    by (rule Suc.IH [OF r])
  finally show ?case by simp
qed

lemma after_polls_trace:
  "trace (after_polls K timeoutMillis startTime this n y) =
     trace y @ poll_events K timeoutMillis startTime this n y"
  by (induction n arbitrary: y) (simp_all add: poll_once_trace)

lemma after_polls_logged:
  "logged (after_polls K timeoutMillis startTime this n y) = logged y"
  by (induction n arbitrary: y) (simp_all add: poll_once_logged)

lemma closed_poll_events: "closed (poll_events K timeoutMillis startTime this n y) = []"
  by (induction n arbitrary: y) simp_all

text \<open>
  Whenever the loop returns, it has only read the clock and polled: by induction over the
  loop's fixed point.
\<close>

lemma poll_loop_frame:
  "poll_loop K timeoutMillis startTime this y = Some r \<Longrightarrow>
   \<exists>evs. trace (snd r) = trace y @ evs \<and> closed evs = []"
proof (induction rule: poll_loop.raw_induct [rotated 1, consumes 1])
  case (1 loop K timeoutMillis startTime this y r)
  obtain now y1 where n: "sys_now K y = (now, y1)"
    by (cases "sys_now K y")
  then have t1: "trace y1 = trace y @ [Now]"
    by (auto simp: sys_now_def split: prod.splits)
  show ?case
  proof (cases "timeoutMillis \<le> k_durationMillis K (now - startTime)")
    case True
    with 1(2) n have "r = (False, LOG ERROR ''accept() timed out'' y1)" by simp
    with t1 show ?thesis by (simp add: trace_LOG)
  next
    case False
    obtain retValue y2 where p: "sys_poll K (listeningFd this)
        (pollTimeout timeoutMillis (k_durationMillis K (now - startTime))) y1 = (retValue, y2)"
      by (cases "sys_poll K (listeningFd this)
        (pollTimeout timeoutMillis (k_durationMillis K (now - startTime))) y1")
    then have t2: "trace y2 = trace y @ [Now, Poll (listeningFd this)
        (pollTimeout timeoutMillis (k_durationMillis K (now - startTime)))]"
      using t1 by (auto simp: sys_poll_def split: prod.splits)
    show ?thesis
    proof (cases "retValue \<le> 0 \<and> sys_errno K y2 = EINTR")
      case True
      with 1(2) n False p have "loop K timeoutMillis startTime this y2 = Some r" by simp
      from 1(1) [OF this] obtain evs where "trace (snd r) = trace y2 @ evs" "closed evs = []"
        by blast
      with t2 have "trace (snd r) = trace y @ ([Now, Poll (listeningFd this)
        (pollTimeout timeoutMillis (k_durationMillis K (now - startTime)))] @ evs)
        \<and> closed ([Now, Poll (listeningFd this)
        (pollTimeout timeoutMillis (k_durationMillis K (now - startTime)))] @ evs) = []"
        by simp
      then show ?thesis by blast
    next
      case False
      with 1(2) n \<open>\<not> timeoutMillis \<le> k_durationMillis K (now - startTime)\<close> p
      have "snd r = y2 \<or> snd r = LOG ERROR ''poll() failed'' y2"
        by (auto split: if_splits)
      with t2 show ?thesis by (auto simp: trace_LOG)
    qed
  qed
qed

lemma accept_tail_frame:
  "accept_tail K this y = (code, this', y') \<Longrightarrow>
   (code = OK \<or> code = CONN_ERROR) \<and> listeningFd this' = listeningFd this
   \<and> port this' = port this \<and> (\<exists>evs. trace y' = trace y @ evs \<and> closed evs = [])"
  by (auto simp: accept_tail_def sys_accept_def setReadTimeout_def setWriteTimeout_def LOG_def
      split: prod.splits if_splits)

lemma since_append: "trace y' = trace y @ evs \<Longrightarrow> since y y' = evs"
  by (simp add: since_def)

lemma accept_after_listen:
  assumes "listen K this y = (OK, this1, y1)"
    and "acceptNextConnection K this timeoutMillis y = Some (code, this', y')"
  shows "(code = OK \<or> code = CONN_ERROR) \<and> listeningFd this' = listeningFd this1
    \<and> port this' = port this1 \<and> closed (since y1 y') = []"
proof (cases "0 < timeoutMillis")
  case False
  with assms have "accept_tail K this1 y1 = (code, this', y')"
    by (simp add: acceptNextConnection_def)
  from accept_tail_frame [OF this] show ?thesis
    by (auto simp: since_append)
next
  case True
  obtain startTime y2 where n: "sys_now K y1 = (startTime, y2)"
    by (cases "sys_now K y1")
  then have t2: "trace y2 = trace y1 @ [Now]"
    by (auto simp: sys_now_def split: prod.splits)
  from assms True n obtain ready y3
    where l: "poll_loop K timeoutMillis startTime this1 y2 = Some (ready, y3)"
      and r: "(if ready then accept_tail K this1 y3 else (CONN_ERROR, this1, y3)) = (code, this', y')"
    by (auto simp: acceptNextConnection_def split: option.splits if_splits)
  from poll_loop_frame [OF l] obtain evs where e: "trace y3 = trace y2 @ evs" "closed evs = []"
    by auto
  show ?thesis
  proof (cases ready)
    case False
    with r e t2 show ?thesis by (auto simp: since_def closed_append)
  next
    case True
    with r have "accept_tail K this1 y3 = (code, this', y')" by simp
    from accept_tail_frame [OF this] obtain evs' where
      c: "code = OK \<or> code = CONN_ERROR" "listeningFd this' = listeningFd this1"
        "port this' = port this1" and e': "trace y' = trace y3 @ evs'" "closed evs' = []"
      by blast
    from e e' t2 have "since y1 y' = Now # evs @ evs'"
      by (simp add: since_def)
    with c e e' show ?thesis by (simp add: closed_append)
  qed
qed

lemma accept_wait_continues:
  assumes "listen K this y = (OK, this1, y1)"
    and "0 < timeoutMillis"
    and "wait_interrupted K timeoutMillis this1 y1 n"
  shows "acceptNextConnection K this timeoutMillis y =
      (case poll_loop K timeoutMillis (wait_start K y1) this1
              (wait_state K timeoutMillis this1 y1 n) of
         None \<Rightarrow> None
       | Some (ready, y3) \<Rightarrow>
           if ready then Some (accept_tail K this1 y3) else Some (CONN_ERROR, this1, y3))"
proof -
  obtain s y2 where n: "sys_now K y1 = (s, y2)"
    by (cases "sys_now K y1")
  from assms(3) n have "interruptions K timeoutMillis s this1 n y2"
    by (simp add: wait_interrupted_def wait_start_def)
  from poll_loop_interruptions [OF this]
  show ?thesis
    using assms(1,2) n
    by (simp add: acceptNextConnection_def wait_state_def wait_start_def)
qed

lemma listen_scripted:
  "listen (scripted [cand4]) fresh8080 (start (0 # 3 # 0 # 0 # answers)) =
     (OK, listening8080, listened answers)"
  by (simp add: listen_def sys_getaddrinfo_def sys_socket_def sys_bind_def sys_listen_def
      sys_freeaddrinfo_def scripted_def pop_def start_def fresh8080_def ServerSocket_new_def
      listening8080_def listened_def cand4_def)

text \<open>
  The 32-bit budget is the true remaining time whenever that fits in 32 bits, which it does
  for every 32-bit timeout when the time elapsed is not negative. It is not when the clock
  has gone back far enough behind \<^verbatim>\<open>startTime\<close>: with the largest timeout, one millisecond
  is enough, and \<^verbatim>\<open>poll\<close> is given a negative timeout.
\<close>

lemma pollTimeout_exact:
  assumes "timeElapsed < timeoutMillis" and "timeoutMillis - timeElapsed < 2 ^ 31"
  shows "pollTimeout timeoutMillis timeElapsed = timeoutMillis - timeElapsed"
proof -
  have "pollTimeout timeoutMillis timeElapsed =
      sint (word_of_int (timeoutMillis - timeElapsed) :: 32 word)"
    by (simp add: pollTimeout_def)
  also have "\<dots> = signed_take_bit 31 (timeoutMillis - timeElapsed)"
    by (subst sint_sbintrunc') simp
  also have "\<dots> = timeoutMillis - timeElapsed"
    using assms by (intro signed_take_bit_int_eq_self) simp_all
  finally show ?thesis .
qed

lemma pollTimeout_wraps: "pollTimeout 2147483647 (-1) = -2147483648"
  by (simp add: pollTimeout_def)

lemma accept_polls_with_wrapped_budget:
  "map_option (\<lambda>r. drop 5 (trace (snd (snd r))))
     (acceptNextConnection (scripted [cand4]) fresh8080 2147483647
        (start [0, 3, 0, 0, 1000, 1010, -1, 4, 999, 1, 7])) =
   Some [Now, Now, Poll 3 2147483637, Now, Poll 3 (-2147483648), Accept 3,
         SetReadTimeout 7, SetWriteTimeout 7]"
  by code_simp

lemma poll_events_remaining:
  "interruptions K timeoutMillis startTime this n y \<Longrightarrow>
   budgets_fit K timeoutMillis startTime this n y \<Longrightarrow>
   poll_events K timeoutMillis startTime this n y =
     remaining_events K timeoutMillis startTime this n y"
  by (induction n arbitrary: y) (simp_all add: interrupted_def pollTimeout_exact)

text \<open>
  Claim C6. In \<^verbatim>\<open>acceptNextConnection(timeoutMillis)\<close> with a positive timeout, after
  \<^verbatim>\<open>listen()\<close> succeeded: when the first \<open>n\<close> iterations of the wait are interrupted
  (\<^verbatim>\<open>poll\<close> returns 0 or less with \<^verbatim>\<open>errno == EINTR\<close>, the budget not used up), the call
  returns what the loop returns from the state after the \<open>n\<close>-th interruption, so no
  interruption ends it. Each interrupted iteration made two calls, a clock reading and a
  \<^verbatim>\<open>poll\<close> on the listening descriptor with the 32-bit difference of the timeout and the
  time elapsed at that reading, and logged nothing. That difference is the true remaining
  time, for each of these iterations and for the retry after them, whenever the true
  remaining time fits in 32 bits. If the next reading is still below the timeout and the
  next \<^verbatim>\<open>poll\<close> reports the descriptor readable, the call goes on to \<^verbatim>\<open>accept\<close>.
\<close>

theorem accept_wait_interrupted_retries:
  assumes "listen K this y = (OK, this1, y1)"
    and "0 < timeoutMillis"
    and "wait_interrupted K timeoutMillis this1 y1 n"
  shows "acceptNextConnection K this timeoutMillis y =
      (case poll_loop K timeoutMillis (wait_start K y1) this1
              (wait_state K timeoutMillis this1 y1 n) of
         None \<Rightarrow> None
       | Some (ready, y3) \<Rightarrow>
           if ready then Some (accept_tail K this1 y3) else Some (CONN_ERROR, this1, y3))
    \<and> trace (wait_state K timeoutMillis this1 y1 n) =
        trace y1 @ Now #
          poll_events K timeoutMillis (wait_start K y1) this1 n (snd (sys_now K y1))
    \<and> (wait_budgets_fit K timeoutMillis this1 y1 n \<longrightarrow>
         trace (wait_state K timeoutMillis this1 y1 n) =
           trace y1 @ Now #
             remaining_events K timeoutMillis (wait_start K y1) this1 n (snd (sys_now K y1)))
    \<and> trace (snd (poll_once K timeoutMillis (wait_start K y1) this1
                     (wait_state K timeoutMillis this1 y1 n))) =
        trace (wait_state K timeoutMillis this1 y1 n) @
          [Now, Poll (listeningFd this1)
             (pollTimeout timeoutMillis
                (elapsed K (wait_start K y1) (wait_state K timeoutMillis this1 y1 n)))]
    \<and> (elapsed K (wait_start K y1) (wait_state K timeoutMillis this1 y1 n) < timeoutMillis
        \<and> timeoutMillis - elapsed K (wait_start K y1) (wait_state K timeoutMillis this1 y1 n)
            < 2 ^ 31
        \<longrightarrow> pollTimeout timeoutMillis
              (elapsed K (wait_start K y1) (wait_state K timeoutMillis this1 y1 n)) =
            timeoutMillis - elapsed K (wait_start K y1) (wait_state K timeoutMillis this1 y1 n)
            \<and> 0 < pollTimeout timeoutMillis
              (elapsed K (wait_start K y1) (wait_state K timeoutMillis this1 y1 n)))
    \<and> logged (wait_state K timeoutMillis this1 y1 n) = logged y1
    \<and> (elapsed K (wait_start K y1) (wait_state K timeoutMillis this1 y1 n) < timeoutMillis
        \<and> 0 < fst (poll_once K timeoutMillis (wait_start K y1) this1
                    (wait_state K timeoutMillis this1 y1 n))
        \<longrightarrow> acceptNextConnection K this timeoutMillis y =
              Some (accept_tail K this1
                (snd (poll_once K timeoutMillis (wait_start K y1) this1
                        (wait_state K timeoutMillis this1 y1 n)))))"
proof -
  let ?s = "wait_start K y1"
  let ?yn = "wait_state K timeoutMillis this1 y1 n"
  note a = accept_wait_continues [OF assms]
  have b: "trace ?yn = trace y1 @ Now # poll_events K timeoutMillis ?s this1 n (snd (sys_now K y1))"
    by (simp add: wait_state_def after_polls_trace sys_now_def split: prod.splits)
  have b': "trace ?yn =
      trace y1 @ Now # remaining_events K timeoutMillis ?s this1 n (snd (sys_now K y1))"
    if "wait_budgets_fit K timeoutMillis this1 y1 n"
    unfolding b using assms(3) that
    by (simp add: wait_interrupted_def wait_budgets_fit_def poll_events_remaining)
  have p: "trace (snd (poll_once K timeoutMillis ?s this1 ?yn)) =
      trace ?yn @ [Now, Poll (listeningFd this1) (pollTimeout timeoutMillis (elapsed K ?s ?yn))]"
    by (rule poll_once_trace)
  have q: "pollTimeout timeoutMillis (elapsed K ?s ?yn) = timeoutMillis - elapsed K ?s ?yn
      \<and> 0 < pollTimeout timeoutMillis (elapsed K ?s ?yn)"
    if "elapsed K ?s ?yn < timeoutMillis" and "timeoutMillis - elapsed K ?s ?yn < 2 ^ 31"
    using that by (simp add: pollTimeout_exact)
  have c: "logged ?yn = logged y1"
    by (simp add: wait_state_def after_polls_logged sys_now_def split: prod.splits)
  have d: "acceptNextConnection K this timeoutMillis y =
      Some (accept_tail K this1 (snd (poll_once K timeoutMillis ?s this1 ?yn)))"
    if "elapsed K ?s ?yn < timeoutMillis" and "0 < fst (poll_once K timeoutMillis ?s this1 ?yn)"
    unfolding a using that by (subst poll_loop_unfold) simp
  from a b b' p q c d show ?thesis by blast
qed

theorem accept_wait_interrupted_retries_witness:
  "listen (scripted [cand4]) fresh8080
      (start [0, 3, 0, 0, 1000, 1010, -1, 4, 1050, -1, 4, 1080, 1, 7]) =
     (OK, listening8080, listened [1000, 1010, -1, 4, 1050, -1, 4, 1080, 1, 7])
   \<and> wait_interrupted (scripted [cand4]) 100 listening8080
        (listened [1000, 1010, -1, 4, 1050, -1, 4, 1080, 1, 7]) 2
   \<and> wait_budgets_fit (scripted [cand4]) 100 listening8080
        (listened [1000, 1010, -1, 4, 1050, -1, 4, 1080, 1, 7]) 2
   \<and> trace (wait_state (scripted [cand4]) 100 listening8080
        (listened [1000, 1010, -1, 4, 1050, -1, 4, 1080, 1, 7]) 2) =
       trace (listened [1000, 1010, -1, 4, 1050, -1, 4, 1080, 1, 7])
         @ [Now, Now, Poll 3 90, Now, Poll 3 50]
   \<and> trace (snd (poll_once (scripted [cand4]) 100
        (wait_start (scripted [cand4]) (listened [1000, 1010, -1, 4, 1050, -1, 4, 1080, 1, 7]))
        listening8080
        (wait_state (scripted [cand4]) 100 listening8080
          (listened [1000, 1010, -1, 4, 1050, -1, 4, 1080, 1, 7]) 2))) =
       trace (listened [1000, 1010, -1, 4, 1050, -1, 4, 1080, 1, 7])
         @ [Now, Now, Poll 3 90, Now, Poll 3 50, Now, Poll 3 20]
   \<and> map_option fst (acceptNextConnection (scripted [cand4]) fresh8080 100
        (start [0, 3, 0, 0, 1000, 1010, -1, 4, 1050, -1, 4, 1080, 1, 7])) = Some OK"
proof -
  let ?K = "scripted [cand4]"
  let ?r = "[1000, 1010, -1, 4, 1050, -1, 4, 1080, 1, 7] :: int list"
  let ?y = "start (0 # 3 # 0 # 0 # ?r)"
  let ?s = "wait_start ?K (listened ?r)"
  let ?yn = "wait_state ?K 100 listening8080 (listened ?r) 2"
  have h1: "listen ?K fresh8080 ?y = (OK, listening8080, listened ?r)"
    by (rule listen_scripted)
  have h2: "(0::int) < 100"
    by simp
  have h3: "wait_interrupted ?K 100 listening8080 (listened ?r) 2"
    by code_simp
  have h4: "wait_budgets_fit ?K 100 listening8080 (listened ?r) 2"
    by code_simp
  note r = accept_wait_interrupted_retries [OF h1 h2 h3]
  have e: "remaining_events ?K 100 ?s listening8080 2 (snd (sys_now ?K (listened ?r))) =
      [Now, Poll 3 90, Now, Poll 3 50]"
    by code_simp
  from r h4 have t: "trace ?yn = trace (listened ?r) @ Now #
      remaining_events ?K 100 ?s listening8080 2 (snd (sys_now ?K (listened ?r)))"
    by blast
  have l: "elapsed ?K ?s ?yn = 80"
    by code_simp
  have f: "elapsed ?K ?s ?yn < 100 \<and> 100 - elapsed ?K ?s ?yn < 2 ^ 31"
    by (simp add: l)
  from r f have "pollTimeout 100 (elapsed ?K ?s ?yn) = 100 - elapsed ?K ?s ?yn"
    by blast
  then have b: "pollTimeout 100 80 = 20"
    by (simp add: l)
  from r have p: "trace (snd (poll_once ?K 100 ?s listening8080 ?yn)) =
      trace ?yn @ [Now, Poll (listeningFd listening8080) (pollTimeout 100 (elapsed ?K ?s ?yn))]"
    by blast
  have d: "listeningFd listening8080 = 3"
    by (simp add: listening8080_def)
  have g: "elapsed ?K ?s ?yn < 100 \<and> 0 < fst (poll_once ?K 100 ?s listening8080 ?yn)"
    by code_simp
  from r g have a: "acceptNextConnection ?K fresh8080 100 ?y =
      Some (accept_tail ?K listening8080 (snd (poll_once ?K 100 ?s listening8080 ?yn)))"
    by blast
  have o: "fst (accept_tail ?K listening8080 (snd (poll_once ?K 100 ?s listening8080 ?yn))) = OK"
    by code_simp
  have p': "trace (snd (poll_once ?K 100 ?s listening8080 ?yn)) =
      trace (listened ?r) @ [Now, Now, Poll 3 90, Now, Poll 3 50, Now, Poll 3 20]"
    unfolding p l b d t e by simp
  have t': "trace ?yn = trace (listened ?r) @ [Now, Now, Poll 3 90, Now, Poll 3 50]"
    unfolding t e by simp
  from h1 h3 h4 t' p' a o show ?thesis by simp
qed

text \<open>
  Claim C7. After \<^verbatim>\<open>listen()\<close> succeeded, every result of \<^verbatim>\<open>acceptNextConnection\<close> other than
  \<^verbatim>\<open>OK\<close> is \<^verbatim>\<open>CONN_ERROR\<close>, with the listening descriptor and the port as \<^verbatim>\<open>listen()\<close> left
  them, the descriptor above 0, no \<^verbatim>\<open>close\<close> made since, and \<^verbatim>\<open>listen()\<close> on the resulting
  object returning \<^verbatim>\<open>OK\<close> at once. And each failure does return \<^verbatim>\<open>CONN_ERROR\<close>: a failing
  \<^verbatim>\<open>accept\<close> without a timeout; and, with a positive timeout and after any number \<open>n\<close> of
  interrupted iterations, a clock reading at or past the timeout, a \<^verbatim>\<open>poll\<close> returning 0 or
  less with \<^verbatim>\<open>errno\<close> other than \<^verbatim>\<open>EINTR\<close>, and a failing \<^verbatim>\<open>accept\<close> after a successful
  \<^verbatim>\<open>poll\<close>.
\<close>

theorem accept_failures_non_retryable:
  assumes "listen K this y = (OK, this1, y1)"
  shows "(acceptNextConnection K this timeoutMillis y = Some (code, this', y') \<and> code \<noteq> OK
          \<longrightarrow> code = CONN_ERROR \<and> listeningFd this' = listeningFd this1
              \<and> 0 < listeningFd this' \<and> port this' = port this1
              \<and> closed (since y1 y') = [] \<and> listen K this' y' = (OK, this', y'))
    \<and> (\<not> 0 < timeoutMillis \<and> fst (sys_accept K (listeningFd this1) y1) < 0
          \<longrightarrow> acceptNextConnection K this timeoutMillis y =
                Some (CONN_ERROR, this1\<lparr>fd := fst (sys_accept K (listeningFd this1) y1)\<rparr>,
                      LOG ERROR ''accept error'' (snd (sys_accept K (listeningFd this1) y1))))
    \<and> (0 < timeoutMillis \<and> wait_interrupted K timeoutMillis this1 y1 n
        \<and> timeoutMillis \<le> elapsed K (wait_start K y1) (wait_state K timeoutMillis this1 y1 n)
          \<longrightarrow> acceptNextConnection K this timeoutMillis y =
                Some (CONN_ERROR, this1,
                      LOG ERROR ''accept() timed out''
                        (snd (sys_now K (wait_state K timeoutMillis this1 y1 n)))))
    \<and> (0 < timeoutMillis \<and> wait_interrupted K timeoutMillis this1 y1 n
        \<and> elapsed K (wait_start K y1) (wait_state K timeoutMillis this1 y1 n) < timeoutMillis
        \<and> fst (poll_once K timeoutMillis (wait_start K y1) this1
                 (wait_state K timeoutMillis this1 y1 n)) \<le> 0
        \<and> sys_errno K (snd (poll_once K timeoutMillis (wait_start K y1) this1
                 (wait_state K timeoutMillis this1 y1 n))) \<noteq> EINTR
          \<longrightarrow> acceptNextConnection K this timeoutMillis y =
                Some (CONN_ERROR, this1,
                      if fst (poll_once K timeoutMillis (wait_start K y1) this1
                               (wait_state K timeoutMillis this1 y1 n)) = 0
                      then snd (poll_once K timeoutMillis (wait_start K y1) this1
                               (wait_state K timeoutMillis this1 y1 n))
                      else LOG ERROR ''poll() failed''
                             (snd (poll_once K timeoutMillis (wait_start K y1) this1
                               (wait_state K timeoutMillis this1 y1 n)))))
    \<and> (0 < timeoutMillis \<and> wait_interrupted K timeoutMillis this1 y1 n
        \<and> elapsed K (wait_start K y1) (wait_state K timeoutMillis this1 y1 n) < timeoutMillis
        \<and> 0 < fst (poll_once K timeoutMillis (wait_start K y1) this1
                    (wait_state K timeoutMillis this1 y1 n))
        \<and> fst (sys_accept K (listeningFd this1)
                 (snd (poll_once K timeoutMillis (wait_start K y1) this1
                    (wait_state K timeoutMillis this1 y1 n)))) < 0
          \<longrightarrow> fst (the (acceptNextConnection K this timeoutMillis y)) = CONN_ERROR
              \<and> acceptNextConnection K this timeoutMillis y \<noteq> None)"
proof -
  let ?s = "wait_start K y1"
  let ?yn = "wait_state K timeoutMillis this1 y1 n"
  let ?p = "poll_once K timeoutMillis ?s this1 ?yn"
  have l: "0 < listeningFd this1"
    using assms by (rule listen_OK_listening)
  have 1: "code = CONN_ERROR \<and> listeningFd this' = listeningFd this1
              \<and> 0 < listeningFd this' \<and> port this' = port this1
              \<and> closed (since y1 y') = [] \<and> listen K this' y' = (OK, this', y')"
    if "acceptNextConnection K this timeoutMillis y = Some (code, this', y')" and "code \<noteq> OK"
  proof -
    from accept_after_listen [OF assms that(1)] that(2) l
    have "code = CONN_ERROR" "listeningFd this' = listeningFd this1" "0 < listeningFd this'"
      "port this' = port this1" "closed (since y1 y') = []"
      by simp_all
    moreover from \<open>0 < listeningFd this'\<close> have "listen K this' y' = (OK, this', y')"
      by (rule listen_when_listening)
    ultimately show ?thesis by simp
  qed
  have 2: "acceptNextConnection K this timeoutMillis y =
                Some (CONN_ERROR, this1\<lparr>fd := fst (sys_accept K (listeningFd this1) y1)\<rparr>,
                      LOG ERROR ''accept error'' (snd (sys_accept K (listeningFd this1) y1)))"
    if "\<not> 0 < timeoutMillis" and "fst (sys_accept K (listeningFd this1) y1) < 0"
    using assms that by (simp add: acceptNextConnection_def accept_tail_def case_prod_beta)
  have 3: "acceptNextConnection K this timeoutMillis y =
                Some (CONN_ERROR, this1, LOG ERROR ''accept() timed out'' (snd (sys_now K ?yn)))"
    if "0 < timeoutMillis" and "wait_interrupted K timeoutMillis this1 y1 n"
      and "timeoutMillis \<le> elapsed K ?s ?yn"
    unfolding accept_wait_continues [OF assms that(1,2)]
    using that(3) by (subst poll_loop_unfold) simp
  have 4: "acceptNextConnection K this timeoutMillis y =
                Some (CONN_ERROR, this1,
                      if fst ?p = 0 then snd ?p else LOG ERROR ''poll() failed'' (snd ?p))"
    if "0 < timeoutMillis" and "wait_interrupted K timeoutMillis this1 y1 n"
      and "elapsed K ?s ?yn < timeoutMillis" and "fst ?p \<le> 0"
      and "sys_errno K (snd ?p) \<noteq> EINTR"
    unfolding accept_wait_continues [OF assms that(1,2)]
    using that(3,4,5) by (subst poll_loop_unfold) simp
  have 5: "fst (the (acceptNextConnection K this timeoutMillis y)) = CONN_ERROR
              \<and> acceptNextConnection K this timeoutMillis y \<noteq> None"
    if "0 < timeoutMillis" and "wait_interrupted K timeoutMillis this1 y1 n"
      and "elapsed K ?s ?yn < timeoutMillis" and "0 < fst ?p"
      and "fst (sys_accept K (listeningFd this1) (snd ?p)) < 0"
    unfolding accept_wait_continues [OF assms that(1,2)]
    using that(3,4,5)
    by (subst poll_loop_unfold, subst (2) poll_loop_unfold)
      (simp add: accept_tail_def case_prod_beta)
  from 1 2 3 4 5 show ?thesis by blast
qed

theorem accept_failures_non_retryable_witness:
  "listen (scripted [cand4]) fresh8080 (start [0, 3, 0, 0, 1000, 1010, -1, 4, 1150]) =
     (OK, listening8080, listened [1000, 1010, -1, 4, 1150])
   \<and> wait_interrupted (scripted [cand4]) 100 listening8080 (listened [1000, 1010, -1, 4, 1150]) 1
   \<and> 100 \<le> elapsed (scripted [cand4]) (wait_start (scripted [cand4]) (listened [1000, 1010, -1, 4, 1150]))
        (wait_state (scripted [cand4]) 100 listening8080 (listened [1000, 1010, -1, 4, 1150]) 1)
   \<and> acceptNextConnection (scripted [cand4]) fresh8080 100
        (start [0, 3, 0, 0, 1000, 1010, -1, 4, 1150]) =
       Some (CONN_ERROR, listening8080,
         LOG ERROR ''accept() timed out''
           (snd (sys_now (scripted [cand4])
              (wait_state (scripted [cand4]) 100 listening8080 (listened [1000, 1010, -1, 4, 1150]) 1))))
   \<and> listeningFd listening8080 = 3
   \<and> closed (since (listened [1000, 1010, -1, 4, 1150])
        (LOG ERROR ''accept() timed out''
           (snd (sys_now (scripted [cand4])
              (wait_state (scripted [cand4]) 100 listening8080 (listened [1000, 1010, -1, 4, 1150]) 1)))))
       = []
   \<and> listen (scripted [cand4]) listening8080
        (LOG ERROR ''accept() timed out''
           (snd (sys_now (scripted [cand4])
              (wait_state (scripted [cand4]) 100 listening8080 (listened [1000, 1010, -1, 4, 1150]) 1)))) =
       (OK, listening8080,
        LOG ERROR ''accept() timed out''
           (snd (sys_now (scripted [cand4])
              (wait_state (scripted [cand4]) 100 listening8080 (listened [1000, 1010, -1, 4, 1150]) 1))))"
proof -
  let ?K = "scripted [cand4]"
  let ?r = "[1000, 1010, -1, 4, 1150] :: int list"
  let ?y = "start (0 # 3 # 0 # 0 # ?r)"
  let ?y' = "LOG ERROR ''accept() timed out''
               (snd (sys_now ?K (wait_state ?K 100 listening8080 (listened ?r) 1)))"
  have h1: "listen ?K fresh8080 ?y = (OK, listening8080, listened ?r)"
    by (rule listen_scripted)
  have h2: "(0::int) < 100"
    by simp
  have h3: "wait_interrupted ?K 100 listening8080 (listened ?r) 1"
    by code_simp
  have h4: "100 \<le> elapsed ?K (wait_start ?K (listened ?r))
        (wait_state ?K 100 listening8080 (listened ?r) 1)"
    by code_simp
  note r = accept_failures_non_retryable [OF h1, where timeoutMillis = 100 and n = 1
      and code = CONN_ERROR and this' = listening8080 and y' = ?y']
  from r h2 h3 h4 have a: "acceptNextConnection ?K fresh8080 100 ?y =
      Some (CONN_ERROR, listening8080, ?y')"
    by blast
  have "CONN_ERROR \<noteq> OK"
    by simp
  with r a have b: "listeningFd listening8080 = listeningFd listening8080
      \<and> 0 < listeningFd listening8080 \<and> closed (since (listened ?r) ?y') = []
      \<and> listen ?K listening8080 ?y' = (OK, listening8080, ?y')"
    by blast
  have c: "listeningFd listening8080 = 3"
    by (simp add: listening8080_def)
  from h1 h3 h4 a b c show ?thesis by simp
qed

section \<open>The values of the descriptor members: proofs\<close>

text \<open>
  Every operation of the class keeps \<open>absent_or_descriptor\<close>, so the states the class can
  be in all satisfy it.
\<close>

lemma new_absent_or_descriptor:
  "absent_or_descriptor (ServerSocket_new ipv6 ipv4 port0 backlog0 checker)"
  by (simp add: absent_or_descriptor_def ServerSocket_new_def)

lemma moves_absent_or_descriptor:
  assumes "absent_or_descriptor this" and "absent_or_descriptor that"
  shows "absent_or_descriptor (fst (move_construct that))"
    and "absent_or_descriptor (snd (move_construct that))"
    and "absent_or_descriptor (fst (move_assign this that))"
    and "absent_or_descriptor (snd (move_assign this that))"
  using assms by (simp_all add: absent_or_descriptor_def move_construct_def move_assign_def)

lemma close_absent_or_descriptor:
  assumes "absent_or_descriptor this"
  shows "absent_or_descriptor (fst (closeAll K this y))"
    and "absent_or_descriptor (fst (snd (closeCurrentConnection K this y)))"
    and "absent_or_descriptor (fst (snd (read K this buf nbyte tryFull y)))"
    and "absent_or_descriptor (fst (snd (write K this buf nbyte tryFull y)))"
  using assms
  by (simp_all add: absent_or_descriptor_def closeAll_fields closeCurrentConnection_def
      read_def write_def split: prod.splits)

lemma fst_sys_socket:
  "fst (sys_socket K fam ty proto y) = fst (k_socket K (world y) fam ty proto)"
  by (simp add: sys_socket_def case_prod_beta)

lemma fst_sys_accept: "fst (sys_accept K d y) = fst (k_accept K (world y) d)"
  by (simp add: sys_accept_def case_prod_beta)

lemma bind_loop_fd: "fd (fst (bind_loop K infos this y)) = fd this"
  by (induction infos arbitrary: this y) (simp_all add: case_prod_beta)

lemma bind_loop_listeningFd:
  assumes "posix_results K"
  shows "-1 \<le> listeningFd this \<Longrightarrow> -1 \<le> listeningFd (fst (bind_loop K infos this y))"
proof (induction infos arbitrary: this y)
  case Nil
  then show ?case by simp
next
  case (Cons info rest)
  have s: "-1 \<le> fst (sys_socket K (ai_family info) (ai_socktype info) (ai_protocol info) y)"
    using assms by (simp add: posix_results_def fst_sys_socket)
  have k: "-1 \<le> listeningFd (fst (bind_loop K rest (this\<lparr>listeningFd := d\<rparr>) z))"
    if "-1 \<le> d" for d z
    using that by (intro Cons.IH) simp
  from s k [of "-1"] k [OF s] show ?case
    by (simp add: case_prod_beta)
qed

lemma listen_absent_or_descriptor:
  assumes "posix_results K" and "absent_or_descriptor this"
  shows "absent_or_descriptor (fst (snd (listen K this y)))"
  using assms(2) bind_loop_listeningFd [OF assms(1), of this]
  by (simp add: listen_def absent_or_descriptor_def bind_loop_fd case_prod_beta)

lemma accept_tail_absent_or_descriptor:
  assumes "posix_results K" and "absent_or_descriptor this"
  shows "absent_or_descriptor (fst (snd (accept_tail K this y)))"
  using assms
  by (simp add: accept_tail_def absent_or_descriptor_def posix_results_def fst_sys_accept
      case_prod_beta)

lemma accept_absent_or_descriptor:
  assumes "posix_results K" and "absent_or_descriptor this"
    and "acceptNextConnection K this timeoutMillis y = Some (code, this', y')"
  shows "absent_or_descriptor this'"
proof -
  obtain c this1 y1 where l: "listen K this y = (c, this1, y1)"
    by (cases "listen K this y")
  with listen_absent_or_descriptor [OF assms(1,2), of y] have a: "absent_or_descriptor this1"
    by simp
  note t = accept_tail_absent_or_descriptor [OF assms(1) a]
  from assms(3) l have "this' = this1 \<or> (\<exists>z. this' = fst (snd (accept_tail K this1 z)))"
    by (auto simp: acceptNextConnection_def split: prod.splits option.splits if_splits)
       (metis fst_conv snd_conv)+
  with a t show ?thesis by auto
qed

end
